theory Spec2Isabelle
  imports Main "HOL-Library.Word"
begin

section \<open>JavaScript values and exceptions\<close>

text \<open>
  Exceptions of the source are values: every \<open>throw\<close> that a claim depends on is a
  branch returning \<open>Inl\<close>. \<open>TypeError\<close> is what the runtime raises when a
  property of \<open>undefined\<close> or \<open>null\<close> is read; the other constructors name the
  failure classes of the collaborators (file read, parser, adapter, template engine,
  library lookup).
\<close>

datatype exn = TypeError | ReadError | ParseError | AdapterError | NotFoundError | TemplateError

text \<open>
  Strings are lists of characters. The characters the source inspects (the path
  separator, the disallowed filename characters) are ASCII, so working on bytes of a
  UTF-8 rendering and working on UTF-16 code units replace the same positions.
\<close>

text \<open>
  A value read from a parsed record. Only its use as a property key matters here:
  a string is its own key, \<open>undefined\<close> (also the value of an absent property) gives
  the key \<^verbatim>\<open>undefined\<close>, and any other value (number, boolean, \<open>null\<close>, object) is
  represented by the string that the conversion to a property key gives for it.
\<close>

datatype jsval = JUndefined | JStr string | JOther string

fun toPropertyKey :: "jsval \<Rightarrow> string" where
  "toPropertyKey JUndefined = ''undefined''"
| "toPropertyKey (JStr s) = s"
| "toPropertyKey (JOther s) = s"

text \<open>A parsed record (\<open>EntryData\<close> read through \<open>IIndexable\<close>): reading a property
  gives its value, \<open>undefined\<close> when the record has none of that name.\<close>

type_synonym entryData = "string \<Rightarrow> jsval"

section \<open>util.ts\<close>

text \<open>\<^verbatim>\<open>DISALLOWED_FILENAME_CHARACTERS_RE = /[*"\\/<>:|?]/g\<close>: the members of the character
  class, in the order of the source.\<close>

definition DISALLOWED_FILENAME_CHARACTERS :: "char list" where
  "DISALLOWED_FILENAME_CHARACTERS =
     [CHR ''*'', CHR 0x22, CHR 0x5C, CHR ''/'', CHR ''<'', CHR ''>'', CHR '':'', CHR ''|'', CHR ''?'']"

text \<open>\<^verbatim>\<open>s.replace(DISALLOWED_FILENAME_CHARACTERS_RE, '_')\<close>: the pattern matches one
  character and carries the global flag, so every matching character is replaced.\<close>

definition replaceDisallowed :: "string \<Rightarrow> string" where
  "replaceDisallowed s =
     map (\<lambda>c. if c \<in> set DISALLOWED_FILENAME_CHARACTERS then CHR ''_'' else c) s"

subsection \<open>Notifier\<close>

text \<open>
  A notice of the host is identified by the order of its creation and carries its
  message. The record holds the fields of the class (\<open>defaultMessage\<close>,
  \<open>currentNotice\<close>, \<open>mutationObserver\<close>, the latter naming the notice whose element
  it observes) and, as the part of the host that the class acts on, the notices of this
  category that are on screen (\<open>displayed\<close>) and the number of notices created so far.
  \<open>undefined\<close> and \<open>null\<close> in the two optional fields are both \<open>None\<close>: the
  source only tests them for truthiness or through \<open>?.\<close>.
\<close>

type_synonym notice = "nat \<times> string"

record notifier =
  defaultMessage :: string
  currentNotice :: "notice option"
  mutationObserver :: "nat option"
  displayed :: "notice list"
  created :: nat

definition Notifier :: "string \<Rightarrow> notifier" where
  "Notifier message =
     \<lparr>defaultMessage = message, currentNotice = None, mutationObserver = None,
      displayed = [], created = 0\<rparr>"

text \<open>
  \<open>show(message?)\<close>. The result is \<open>Some False\<close> for \<open>return false\<close> and
  \<open>None\<close> for the path that reaches the end of the body without a \<open>return\<close>
  (the call evaluates to \<open>undefined\<close>). \<open>message || this.defaultMessage\<close> takes the
  default for an absent and for an empty message.
\<close>

definition notifier_show :: "string option \<Rightarrow> notifier \<Rightarrow> bool option \<times> notifier" where
  "notifier_show message n =
     (let m = (case message of
                 None \<Rightarrow> defaultMessage n
               | Some s \<Rightarrow> if s = [] then defaultMessage n else s)
      in if currentNotice n \<noteq> None then (Some False, n)
         else
           let nt = (created n, m)
           in (None,
               n\<lparr>currentNotice := Some nt,
                 mutationObserver := Some (fst nt),
                 displayed := displayed n @ [nt],
                 created := Suc (created n)\<rparr>))"

text \<open>\<open>hide()\<close>: \<open>currentNotice?.hide()\<close> takes the current notice off the screen, the
  observer is disconnected, both fields are set to \<open>null\<close>.\<close>

definition notifier_hide :: "notifier \<Rightarrow> notifier" where
  "notifier_hide n =
     n\<lparr>displayed := (case currentNotice n of
                        None \<Rightarrow> displayed n
                      | Some nt \<Rightarrow> removeAll nt (displayed n)),
       currentNotice := None,
       mutationObserver := None\<rparr>"

definition notifier_unload :: "notifier \<Rightarrow> notifier" where
  "notifier_unload n = notifier_hide n"

text \<open>
  The host changes the class attribute of the element of notice \<open>i\<close>;
  \<open>disappearing\<close> says whether the element now carries the disappearing class, which
  is how the host takes a notice off the screen. The callback of the observer runs only
  while the observer is connected to that element; when some change is a disappearing
  one it clears \<open>currentNotice\<close>, disconnects and clears \<open>mutationObserver\<close>.
\<close>

definition classChanged :: "nat \<Rightarrow> bool \<Rightarrow> notifier \<Rightarrow> notifier" where
  "classChanged i disappearing n =
     (let n' = (if disappearing then n\<lparr>displayed := filter (\<lambda>nt. fst nt \<noteq> i) (displayed n)\<rparr>
                else n)
      in if mutationObserver n' = Some i \<and> disappearing
         then n'\<lparr>currentNotice := None, mutationObserver := None\<rparr>
         else n')"

text \<open>The host may also drop a notice without any class change that the observer is
  told of (the element is removed); the fields of the class stay as they are.\<close>

definition removed :: "nat \<Rightarrow> notifier \<Rightarrow> notifier" where
  "removed i n = n\<lparr>displayed := filter (\<lambda>nt. fst nt \<noteq> i) (displayed n)\<rparr>"

datatype notifier_event =
    Show "string option"
  | Hide
  | Unload
  | ClassChanged nat bool
  | Removed nat

fun notifier_step :: "notifier \<Rightarrow> notifier_event \<Rightarrow> notifier" where
  "notifier_step n (Show message) = snd (notifier_show message n)"
| "notifier_step n Hide = notifier_hide n"
| "notifier_step n Unload = notifier_unload n"
| "notifier_step n (ClassChanged i d) = classChanged i d n"
| "notifier_step n (Removed i) = removed i n"

definition notifier_run :: "notifier \<Rightarrow> notifier_event list \<Rightarrow> notifier" where
  "notifier_run n evs = foldl notifier_step n evs"

text \<open>What holds of a Notifier at every moment: whatever is on screen is the notice
  that \<open>currentNotice\<close> holds, and the observer is connected to that notice.\<close>

definition notifier_inv :: "notifier \<Rightarrow> bool" where
  "notifier_inv n \<longleftrightarrow>
     (displayed n = [] \<or> (\<exists>c. currentNotice n = Some c \<and> displayed n = [c]))
     \<and> mutationObserver n = map_option fst (currentNotice n)"

section \<open>The Library\<close>

text \<open>
  A JavaScript object used as a dictionary: its own properties in creation order.
  \<open>setProp\<close> is \<open>CreateDataProperty\<close>: a new key is appended, an existing key keeps
  its place and takes the new value. (The runtime enumerates keys that are array
  indices before the others; nothing below depends on the order of enumeration.)
\<close>

type_synonym 'a jsobject = "(string \<times> 'a) list"

fun setProp :: "string \<Rightarrow> 'a \<Rightarrow> 'a jsobject \<Rightarrow> 'a jsobject" where
  "setProp k v [] = [(k, v)]"
| "setProp k v ((k', v') # ps) = (if k' = k then (k, v) # ps else (k', v') # setProp k v ps)"

definition getProp :: "'a jsobject \<Rightarrow> string \<Rightarrow> 'a option" where
  "getProp obj k = map_of obj k"

text \<open>\<^verbatim>\<open>Object.fromEntries(pairs)\<close>: the pairs are written in order into a fresh object,
  each key converted to a property key.\<close>

definition fromEntries :: "(jsval \<times> 'a) list \<Rightarrow> 'a jsobject" where
  "fromEntries ps = foldl (\<lambda>obj (k, v). setProp (toPropertyKey k) v obj) [] ps"

text \<open>
  Modelled from the spec: the class \<open>Library\<close> of \<^verbatim>\<open>types.ts\<close>, which is not among the
  sources. The spec gives it as a mapping from citekey to Entry, built from the object
  that the constructor is given (\<open>entries\<close>, which \<^verbatim>\<open>modals.ts\<close> reads).
\<close>

datatype 'e library = Library (entries: "'e jsobject")

text \<open>Modelled from the spec: the \<open>size\<close> of a Library (\<^verbatim>\<open>types.ts\<close>), which the spec
  gives as the entry count.\<close>

definition library_size :: "'e library \<Rightarrow> nat" where
  "library_size l = length (entries l)"

text \<open>Modelled from the spec: \<open>getTemplateVariablesForCitekey\<close> of a Library
  (\<^verbatim>\<open>types.ts\<close>), which the spec has fail with \<open>NotFoundError\<close> when the citekey is
  absent. The bundle computed from an entry is the parameter \<open>variables\<close>.\<close>

definition getTemplateVariablesForCitekey ::
  "(string \<Rightarrow> 'e \<Rightarrow> 'v) \<Rightarrow> 'e library \<Rightarrow> string \<Rightarrow> exn + 'v" where
  "getTemplateVariablesForCitekey variables l citekey =
     (case getProp (entries l) citekey of
        None \<Rightarrow> Inl NotFoundError
      | Some e \<Rightarrow> Inr (variables citekey e))"

text \<open>The field \<open>library\<close> of the plugin: declared without initialiser (\<open>undefined\<close>),
  later assigned whatever \<open>loadLibrary\<close> returned (\<open>null\<close> or a Library).\<close>

datatype 'e libref = LUndefined | LNull | Lib "'e library"

section \<open>Path resolution of the runtime\<close>

text \<open>
  \<open>path.resolve\<close> of the runtime in its POSIX form, after its documentation: the
  arguments are taken from right to left, empty ones skipped, each put in front of
  what has been collected, until one that starts with \<open>/\<close> has been taken; when
  none does, the working directory is put in front. The collected path is then
  normalised: empty segments and \<open>.\<close> segments are dropped, a \<open>..\<close> segment removes
  the segment before it (at the root it is dropped, in a relative path it is kept when
  there is nothing to remove), and no separator is left at the end.
\<close>

fun splitPath :: "string \<Rightarrow> string list" where
  "splitPath [] = [[]]"
| "splitPath (c # cs) =
     (if c = CHR ''/'' then [] # splitPath cs
      else (case splitPath cs of
              [] \<Rightarrow> [[c]]
            | seg # segs \<Rightarrow> (c # seg) # segs))"

fun joinSegments :: "string list \<Rightarrow> string" where
  "joinSegments [] = []"
| "joinSegments [s] = s"
| "joinSegments (s # t # ss) = s @ CHR ''/'' # joinSegments (t # ss)"

fun normalizeSegments :: "bool \<Rightarrow> string list \<Rightarrow> string list \<Rightarrow> string list" where
  "normalizeSegments allowAboveRoot res [] = res"
| "normalizeSegments allowAboveRoot res (seg # segs) =
     (if seg = [] \<or> seg = ''.'' then normalizeSegments allowAboveRoot res segs
      else if seg = ''..'' then
        (if res \<noteq> [] \<and> last res \<noteq> ''..''
         then normalizeSegments allowAboveRoot (butlast res) segs
         else if allowAboveRoot then normalizeSegments allowAboveRoot (res @ [''..'']) segs
         else normalizeSegments allowAboveRoot res segs)
      else normalizeSegments allowAboveRoot (res @ [seg]) segs)"

definition normalizeString :: "string \<Rightarrow> bool \<Rightarrow> string" where
  "normalizeString p allowAboveRoot =
     joinSegments (normalizeSegments allowAboveRoot [] (splitPath p))"

text \<open>The loop of \<open>path.resolve\<close> over the arguments from the right, the working
  directory last: the collected path and whether it is absolute.\<close>

fun resolveLoop :: "string list \<Rightarrow> string \<Rightarrow> string \<times> bool" where
  "resolveLoop [] resolvedPath = (resolvedPath, False)"
| "resolveLoop (p # ps) resolvedPath =
     (if p = [] then resolveLoop ps resolvedPath
      else if hd p = CHR ''/'' then (p @ CHR ''/'' # resolvedPath, True)
      else resolveLoop ps (p @ CHR ''/'' # resolvedPath))"

definition path_resolve :: "string \<Rightarrow> string list \<Rightarrow> string" where
  "path_resolve workingDirectory args =
     (case resolveLoop (rev args @ [workingDirectory]) [] of
        (resolvedPath, resolvedAbsolute) \<Rightarrow>
          (let normalized = normalizeString resolvedPath (\<not> resolvedAbsolute)
           in if resolvedAbsolute then CHR ''/'' # normalized
              else if normalized \<noteq> [] then normalized else ''.''))"

section \<open>Text decoding of the runtime\<close>

text \<open>
  \<open>new TextDecoder('utf8').decode(bytes)\<close> of the runtime, after the Encoding
  standard: the decoder is created without the \<open>fatal\<close> option, so a byte sequence
  that is not well-formed UTF-8 is not an error of the call; each maximal ill-formed part
  is replaced by U+FFFD and decoding goes on. A byte order mark at the start is dropped.
  The state of the decoder is the bytes of the character being read, the number of bytes
  it still needs and the range the next byte must lie in. \<open>utf8_scan\<close> gives, in
  order, the bytes of each character read and \<open>None\<close> for each replacement; the
  text is given by its UTF-8 bytes.
\<close>

type_synonym utf8_state = "8 word list \<times> nat \<times> 8 word \<times> 8 word"

definition utf8_initial :: utf8_state where
  "utf8_initial = ([], 0, 0x80, 0xBF)"

definition utf8_lead :: "8 word \<Rightarrow> 8 word list option list \<times> utf8_state" where
  "utf8_lead b =
     (if b \<le> 0x7F then ([Some [b]], utf8_initial)
      else if 0xC2 \<le> b \<and> b \<le> 0xDF then ([], ([b], 1, 0x80, 0xBF))
      else if 0xE0 \<le> b \<and> b \<le> 0xEF
        then ([], ([b], 2, (if b = 0xE0 then 0xA0 else 0x80), (if b = 0xED then 0x9F else 0xBF)))
      else if 0xF0 \<le> b \<and> b \<le> 0xF4
        then ([], ([b], 3, (if b = 0xF0 then 0x90 else 0x80), (if b = 0xF4 then 0x8F else 0xBF)))
      else ([None], utf8_initial))"

fun utf8_scan :: "8 word list \<Rightarrow> utf8_state \<Rightarrow> 8 word list option list" where
  "utf8_scan [] (pending, needed, lower, upper) = (if needed \<noteq> 0 then [None] else [])"
| "utf8_scan (b # bs) (pending, needed, lower, upper) =
     (if needed = 0 then (case utf8_lead b of (out, st) \<Rightarrow> out @ utf8_scan bs st)
      else if b < lower \<or> upper < b
        then (case utf8_lead b of (out, st) \<Rightarrow> None # out @ utf8_scan bs st)
      else if needed = 1 then Some (pending @ [b]) # utf8_scan bs utf8_initial
      else utf8_scan bs (pending @ [b], needed - 1, 0x80, 0xBF))"


definition TextDecoder_utf8 :: "8 word list \<Rightarrow> string" where
  "TextDecoder_utf8 bytes =
     (let input = (if take 3 bytes = [0xEF, 0xBB, 0xBF] then drop 3 bytes else bytes);
          items = utf8_scan input utf8_initial;
          out = concat (map (\<lambda>item. case item of None \<Rightarrow> [0xEF, 0xBF, 0xBD] | Some s \<Rightarrow> s) items)
      in map (\<lambda>w. char_of (unat w)) out)"

section \<open>main.ts\<close>

text \<open>The two export formats that the \<open>switch\<close> of \<open>loadLibrary\<close> handles.\<close>

datatype databaseType = Biblatex | CslJson

record settings =
  citationExportPath :: string
  citationExportFormat :: databaseType
  literatureNoteTitleTemplate :: string

text \<open>The adapter of the vault: a \<open>FileSystemAdapter\<close> with its base path, or
  another one.\<close>

datatype vaultAdapter = FileSystemAdapter string | OtherAdapter

text \<open>
  The collaborators that are not part of the sources, as parameters: the file system
  (\<open>readLocalFile\<close>, by resolved path), the decoder (\<open>TextDecoder('utf8')\<close> is
  created without the \<open>fatal\<close> option and so never throws; \<open>TextDecoder_utf8\<close>
  above is that decoder), the parser
  \<open>loadEntries\<close>, the two adapter constructors, the template engine and the bundle
  of template variables of an entry (\<open>variablesOf\<close>). \<open>'e\<close> is the type of entries, \<open>'v\<close> the type
  of bundles.
\<close>

record ('e, 'v) env =
  adapter :: vaultAdapter
  workingDirectory :: string
  readLocalFile :: "string \<Rightarrow> exn + 8 word list"
  decode :: "8 word list \<Rightarrow> string"
  loadEntries :: "string \<Rightarrow> databaseType \<Rightarrow> exn + entryData list"
  EntryBibLaTeXAdapter :: "entryData \<Rightarrow> exn + 'e"
  EntryCSLAdapter :: "entryData \<Rightarrow> exn + 'e"
  compileTemplate :: "string \<Rightarrow> exn + ('v \<Rightarrow> exn + string)"
  variablesOf :: "string \<Rightarrow> 'e \<Rightarrow> 'v"

text \<open>What the plugin does to its surroundings, in order: the console calls and the
  calls of \<open>loadErrorNotifier.show()\<close>.\<close>

datatype effect =
    ConsoleDebugReloading
  | ConsoleDebugLoaded nat
  | ConsoleWarnPathNotSet
  | ConsoleError exn
  | LoadErrorNotifierShow

record 'e plugin =
  settings :: settings
  library :: "'e libref"
  loadErrorNotifier :: notifier
  trace :: "effect list"

definition vaultRoot :: "('e, 'v) env \<Rightarrow> string" where
  "vaultRoot env =
     (case adapter env of
        FileSystemAdapter basePath \<Rightarrow> basePath
      | OtherAdapter \<Rightarrow> ''/'')"

definition resolveLibraryPath :: "('e, 'v) env \<Rightarrow> string \<Rightarrow> string" where
  "resolveLibraryPath env rawPath = path_resolve (workingDirectory env) [vaultRoot env, rawPath]"

text \<open>A path segment that normalisation leaves alone: not empty, not \<open>.\<close>, not
  \<open>..\<close>, and free of the separator.\<close>

definition plainSegment :: "string \<Rightarrow> bool" where
  "plainSegment seg \<longleftrightarrow> seg \<noteq> [] \<and> seg \<noteq> ''.'' \<and> seg \<noteq> ''..'' \<and> CHR ''/'' \<notin> set seg"

subsection \<open>Building the library\<close>

definition idKeyOf :: "databaseType \<Rightarrow> string" where
  "idKeyOf format = (case format of Biblatex \<Rightarrow> ''key'' | CslJson \<Rightarrow> ''id'')"

definition adapterOf :: "('e, 'v) env \<Rightarrow> databaseType \<Rightarrow> entryData \<Rightarrow> exn + 'e" where
  "adapterOf env format =
     (case format of Biblatex \<Rightarrow> EntryBibLaTeXAdapter env | CslJson \<Rightarrow> EntryCSLAdapter env)"

text \<open>The citekey of a record: the value of its \<open>idKey\<close> field as the property key
  under which \<open>Object.fromEntries\<close> stores the record.\<close>

definition citekeyOf :: "databaseType \<Rightarrow> entryData \<Rightarrow> string" where
  "citekeyOf format e = toPropertyKey (e (idKeyOf format))"

text \<open>\<open>entries.map(f)\<close> where \<open>f\<close> may throw: the records are visited in order and the
  first exception ends the call.\<close>

fun mapThrowing :: "('a \<Rightarrow> exn + 'b) \<Rightarrow> 'a list \<Rightarrow> exn + 'b list" where
  "mapThrowing f [] = Inr []"
| "mapThrowing f (x # xs) =
     (case f x of
        Inl e \<Rightarrow> Inl e
      | Inr y \<Rightarrow> (case mapThrowing f xs of Inl e \<Rightarrow> Inl e | Inr ys \<Rightarrow> Inr (y # ys)))"

text \<open>\<^verbatim>\<open>(e) => [(e as IIndexable)[idKey], new adapter(e)]\<close>\<close>

definition indexed :: "string \<Rightarrow> (entryData \<Rightarrow> exn + 'e) \<Rightarrow> entryData \<Rightarrow> exn + (jsval \<times> 'e)" where
  "indexed idKey adapt e = (case adapt e of Inl x \<Rightarrow> Inl x | Inr entry \<Rightarrow> Inr (e idKey, entry))"

text \<open>\<^verbatim>\<open>new Library(Object.fromEntries(entries.map(...)))\<close> with \<open>idKey\<close> and \<open>adapter\<close>
  as the \<open>switch\<close> on the format sets them.\<close>

definition buildLibrary :: "('e, 'v) env \<Rightarrow> databaseType \<Rightarrow> entryData list \<Rightarrow> exn + 'e library" where
  "buildLibrary env format es =
     (case mapThrowing (indexed (idKeyOf format) (adapterOf env format)) es of
        Inl x \<Rightarrow> Inl x
      | Inr pairs \<Rightarrow> Inr (Library (fromEntries pairs)))"

subsection \<open>loadLibrary\<close>

text \<open>
  The body of the \<open>try\<close> from the point where the read has settled with
  \<open>readResult\<close>: decode, parse, build, then the \<open>console.debug\<close> whose template
  literal reads \<open>this.library.size\<close>, the size of the library of the plugin as it is
  at that moment (a \<open>TypeError\<close> when that is \<open>undefined\<close> or \<open>null\<close>). The result is
  the new library with the size that was logged.
\<close>

definition loadLibrary_try ::
  "('e, 'v) env \<Rightarrow> 'e plugin \<Rightarrow> exn + 8 word list \<Rightarrow> exn + ('e library \<times> nat)" where
  "loadLibrary_try env s readResult =
     (case readResult of
        Inl x \<Rightarrow> Inl x
      | Inr buffer \<Rightarrow>
          (let val = decode env buffer
           in case loadEntries env val (citationExportFormat (settings s)) of
                Inl x \<Rightarrow> Inl x
              | Inr es \<Rightarrow>
                  (case buildLibrary env (citationExportFormat (settings s)) es of
                     Inl x \<Rightarrow> Inl x
                   | Inr newLibrary \<Rightarrow>
                       (case library s of
                          Lib l \<Rightarrow> Inr (newLibrary, library_size l)
                        | LUndefined \<Rightarrow> Inl TypeError
                        | LNull \<Rightarrow> Inl TypeError))))"

text \<open>The rest of \<open>loadLibrary\<close> after the read has settled: the \<open>try\<close> body and the
  \<open>catch\<close>. \<open>None\<close> is the result \<open>null\<close>.\<close>

definition loadLibrary_resume ::
  "('e, 'v) env \<Rightarrow> 'e plugin \<Rightarrow> exn + 8 word list \<Rightarrow> 'e library option \<times> 'e plugin" where
  "loadLibrary_resume env s readResult =
     (case loadLibrary_try env s readResult of
        Inr (newLibrary, n) \<Rightarrow>
          (Some newLibrary, s\<lparr>trace := trace s @ [ConsoleDebugLoaded n]\<rparr>)
      | Inl x \<Rightarrow>
          (None,
           s\<lparr>trace := trace s @ [ConsoleError x, LoadErrorNotifierShow],
             loadErrorNotifier := snd (notifier_show None (loadErrorNotifier s))\<rparr>))"

text \<open>
  \<open>loadLibrary\<close> up to its one suspension point, the \<open>await\<close> of the read: either
  it has returned \<open>null\<close> already (path not set), or it waits for the file at the
  resolved path.
\<close>

datatype pending = Returned | Reading string

definition loadLibrary_start :: "('e, 'v) env \<Rightarrow> 'e plugin \<Rightarrow> pending \<times> 'e plugin" where
  "loadLibrary_start env s =
     (let s1 = s\<lparr>trace := trace s @ [ConsoleDebugReloading]\<rparr>
      in if citationExportPath (settings s) \<noteq> []
         then (Reading (resolveLibraryPath env (citationExportPath (settings s))), s1)
         else (Returned, s1\<lparr>trace := trace s1 @ [ConsoleWarnPathNotSet]\<rparr>))"

text \<open>A whole call of \<open>loadLibrary\<close> with nothing running in between.\<close>

definition loadLibrary :: "('e, 'v) env \<Rightarrow> 'e plugin \<Rightarrow> 'e library option \<times> 'e plugin" where
  "loadLibrary env s =
     (case loadLibrary_start env s of
        (Returned, s1) \<Rightarrow> (None, s1)
      | (Reading filePath, s1) \<Rightarrow> loadLibrary_resume env s1 (readLocalFile env filePath))"

subsection \<open>Loads in flight\<close>

text \<open>
  The three callers (\<open>init\<close>, the \<open>change\<close> handler of the watcher, the
  refresh command) all run \<^verbatim>\<open>this.library = await this.loadLibrary()\<close>. The runtime
  runs one piece of code at a time and a call gives way only at an \<open>await\<close>, so
  such a load is three pieces: from the trigger to the \<open>await\<close> of the read (or to the
  return, when the path is not set); from the settling of the read, with whatever the
  file system then delivers, to the return; and the assignment of the returned value to
  \<open>this.library\<close>. Pieces of several loads may follow one another in any order that
  keeps the order within each load.
\<close>

datatype source = Init | WatcherChange | RefreshCommand

datatype 'e load = AwaitingRead string | Completed "'e library option"

datatype event =
    Trigger nat source
  | ReadSettled nat "exn + 8 word list"
  | Assign nat

record 'e system =
  plugin :: "'e plugin"
  inflight :: "nat \<Rightarrow> 'e load option"

text \<open>The value of \<open>this.library\<close> after the assignment of a result of
  \<open>loadLibrary\<close>.\<close>

definition toLibref :: "'e library option \<Rightarrow> 'e libref" where
  "toLibref r = (case r of None \<Rightarrow> LNull | Some l \<Rightarrow> Lib l)"

text \<open>One piece of one load; \<open>None\<close> when the piece is not the next one of that load
  (or the number of a new load is in use).\<close>

fun step :: "('e, 'v) env \<Rightarrow> 'e system \<Rightarrow> event \<Rightarrow> 'e system option" where
  "step env sys (Trigger i src) =
     (case inflight sys i of
        Some _ \<Rightarrow> None
      | None \<Rightarrow>
          (case loadLibrary_start env (plugin sys) of
             (Returned, s1) \<Rightarrow>
               Some (sys\<lparr>plugin := s1, inflight := (inflight sys)(i \<mapsto> Completed None)\<rparr>)
           | (Reading filePath, s1) \<Rightarrow>
               Some (sys\<lparr>plugin := s1, inflight := (inflight sys)(i \<mapsto> AwaitingRead filePath)\<rparr>)))"
| "step env sys (ReadSettled i readResult) =
     (case inflight sys i of
        Some (AwaitingRead filePath) \<Rightarrow>
          (case loadLibrary_resume env (plugin sys) readResult of
             (r, s1) \<Rightarrow> Some (sys\<lparr>plugin := s1, inflight := (inflight sys)(i \<mapsto> Completed r)\<rparr>))
      | Some (Completed r) \<Rightarrow> None
      | None \<Rightarrow> None)"
| "step env sys (Assign i) =
     (case inflight sys i of
        Some (Completed r) \<Rightarrow>
          Some (sys\<lparr>plugin := (plugin sys)\<lparr>library := toLibref r\<rparr>,
                    inflight := (inflight sys)(i := None)\<rparr>)
      | Some (AwaitingRead filePath) \<Rightarrow> None
      | None \<Rightarrow> None)"

fun run :: "('e, 'v) env \<Rightarrow> 'e system \<Rightarrow> event list \<Rightarrow> 'e system option" where
  "run env sys [] = Some sys"
| "run env sys (ev # evs) =
     (case step env sys ev of
        None \<Rightarrow> None
      | Some sys' \<Rightarrow> run env sys' evs)"

fun isAssign :: "event \<Rightarrow> bool" where
  "isAssign (Assign i) = True"
| "isAssign (Trigger i src) = False"
| "isAssign (ReadSettled i readResult) = False"

text \<open>The load that a piece belongs to.\<close>

fun loadOf :: "event \<Rightarrow> nat" where
  "loadOf (Trigger i src) = i"
| "loadOf (ReadSettled i readResult) = i"
| "loadOf (Assign i) = i"

text \<open>The library of the plugin is \<open>undefined\<close> or \<open>null\<close> and no load in flight
  has returned a Library.\<close>

text \<open>
  Load \<open>i\<close>, in the run \<open>evs\<close> from \<open>sys\<close>, has returned \<open>r\<close> and not been
  touched since: either its read settled, at a moment when the run had reached
  \<open>m0\<close>, and \<open>r\<close> is what the rest of \<open>loadLibrary\<close> returned there; or it was
  triggered with no path set and \<open>r\<close> is what \<open>loadLibrary\<close> returned at once.
\<close>

definition returnedBy ::
  "('e, 'v) env \<Rightarrow> 'e system \<Rightarrow> nat \<Rightarrow> event list \<Rightarrow> 'e library option \<Rightarrow> bool" where
  "returnedBy env sys i evs r \<longleftrightarrow>
     (\<exists>p1 p2 m0 readResult.
         evs = p1 @ ReadSettled i readResult # p2 \<and> run env sys p1 = Some m0
         \<and> (\<forall>ev\<in>set p2. loadOf ev \<noteq> i)
         \<and> r = fst (loadLibrary_resume env (plugin m0) readResult))
     \<or> (\<exists>p1 p2 m0 src.
         evs = p1 @ Trigger i src # p2 \<and> run env sys p1 = Some m0
         \<and> (\<forall>ev\<in>set p2. loadOf ev \<noteq> i)
         \<and> citationExportPath (settings (plugin m0)) = []
         \<and> r = fst (loadLibrary env (plugin m0)))"

definition neverLoaded :: "'e system \<Rightarrow> bool" where
  "neverLoaded sys \<longleftrightarrow>
     (library (plugin sys) = LUndefined \<or> library (plugin sys) = LNull)
     \<and> (\<forall>i r. inflight sys i = Some (Completed r) \<longrightarrow> r = None)"

subsection \<open>getTitleForCitekey\<close>

text \<open>The rendered template, \<open>unsafeTitle\<close> of the source: the template is compiled,
  the bundle is fetched from \<open>this.library\<close> (a \<open>TypeError\<close> when that is
  \<open>undefined\<close> or \<open>null\<close>), the compiled template is applied.\<close>

definition unsafeTitle :: "('e, 'v) env \<Rightarrow> 'e plugin \<Rightarrow> string \<Rightarrow> exn + string" where
  "unsafeTitle env s citekey =
     (case compileTemplate env (literatureNoteTitleTemplate (settings s)) of
        Inl x \<Rightarrow> Inl x
      | Inr template \<Rightarrow>
          (case library s of
             Lib l \<Rightarrow>
               (case getTemplateVariablesForCitekey (variablesOf env) l citekey of
                  Inl x \<Rightarrow> Inl x
                | Inr vars \<Rightarrow> template vars)
           | LUndefined \<Rightarrow> Inl TypeError
           | LNull \<Rightarrow> Inl TypeError))"

definition getTitleForCitekey :: "('e, 'v) env \<Rightarrow> 'e plugin \<Rightarrow> string \<Rightarrow> exn + string" where
  "getTitleForCitekey env s citekey =
     (case unsafeTitle env s citekey of
        Inl x \<Rightarrow> Inl x
      | Inr t \<Rightarrow> Inr (replaceDisallowed t))"

section \<open>A concrete installation\<close>

text \<open>
  A small export with a repeated citekey, a vault at \<open>/vault\<close>, toy adapters that keep
  the title of a record and a toy template engine that writes the template text
  followed by the bundle. They serve as concrete inputs below.
\<close>

definition exampleRecords :: "entryData list" where
  "exampleRecords =
     [(\<lambda>_. JUndefined)(''id'' := JStr ''a'', ''key'' := JStr ''k1'', ''title'' := JStr ''A/B''),
      (\<lambda>_. JUndefined)(''id'' := JStr ''b'', ''key'' := JStr ''k2'', ''title'' := JStr ''Second''),
      (\<lambda>_. JUndefined)(''id'' := JStr ''a'', ''key'' := JStr ''k3'', ''title'' := JStr ''What?'')]"

definition exampleEnv :: "(string, string) env" where
  "exampleEnv =
     \<lparr>adapter = FileSystemAdapter ''/vault'',
      workingDirectory = ''/home'',
      readLocalFile = (\<lambda>p. if p = ''/vault/refs.json'' then Inr [1, 2] else Inl ReadError),
      decode = (\<lambda>b. if b = [1, 2] then ''two'' else ''other''),
      loadEntries = (\<lambda>v f. if v = ''two'' then Inr exampleRecords else Inl ParseError),
      EntryBibLaTeXAdapter = (\<lambda>e. Inr (toPropertyKey (e ''title''))),
      EntryCSLAdapter = (\<lambda>e. Inr (toPropertyKey (e ''title''))),
      compileTemplate = (\<lambda>t. Inr (\<lambda>v. Inr (t @ v))),
      variablesOf = (\<lambda>k e. k @ '': '' @ e)\<rparr>"

definition exampleLibrary :: "string library" where
  "exampleLibrary = Library [(''a'', ''What?''), (''b'', ''Second'')]"

definition examplePlugin :: "string plugin" where
  "examplePlugin =
     \<lparr>settings = \<lparr>citationExportPath = ''refs.json'', citationExportFormat = CslJson,
                   literatureNoteTitleTemplate = ''@''\<rparr>,
      library = Lib exampleLibrary,
      loadErrorNotifier = Notifier ''Unable to load citations.'',
      trace = []\<rparr>"

subsection \<open>A second installation\<close>

text \<open>
  A vault with BibLaTeX exports: an older and a newer export, one whose entry has no
  key, one with a byte that is not UTF-8 inside a title, and a file that is no export.
  The decoder is the decoder of the runtime. The parser knows the texts of these
  exports; the adapters keep the title and throw on a record without key.
\<close>

definition bytesOf :: "string \<Rightarrow> 8 word list" where
  "bytesOf s = map of_char s"

definition bibRecord :: "jsval \<Rightarrow> string \<Rightarrow> entryData" where
  "bibRecord k title = (\<lambda>_. JUndefined)(''key'' := k, ''title'' := JStr title)"

definition oldExport :: "8 word list" where
  "oldExport = bytesOf ''@a{k1,title={Old}}''"

definition newExport :: "8 word list" where
  "newExport = bytesOf ''@a{k1,title={New}}@a{k2,title={Two}}''"

definition noKeyExport :: "8 word list" where
  "noKeyExport = bytesOf ''@a{,title={None}}''"

definition latin1Export :: "8 word list" where
  "latin1Export = bytesOf ''@a{k1,title={'' @ [0xFF] @ bytesOf ''}}''"

definition bibLoadEntries :: "string \<Rightarrow> databaseType \<Rightarrow> exn + entryData list" where
  "bibLoadEntries text format =
     (if format = Biblatex \<and> text = ''@a{k1,title={Old}}''
        then Inr [bibRecord (JStr ''k1'') ''Old'']
      else if format = Biblatex \<and> text = ''@a{k1,title={New}}@a{k2,title={Two}}''
        then Inr [bibRecord (JStr ''k1'') ''New'', bibRecord (JStr ''k2'') ''Two'']
      else if format = Biblatex \<and> text = ''@a{,title={None}}''
        then Inr [bibRecord JUndefined ''None'']
      else if format = Biblatex \<and> text = ''@a{k1,title={'' @ [CHR 0xEF, CHR 0xBF, CHR 0xBD] @ ''}}''
        then Inr [bibRecord (JStr ''k1'') [CHR 0xEF, CHR 0xBF, CHR 0xBD]]
      else Inl ParseError)"

definition bibAdapter :: "entryData \<Rightarrow> exn + string" where
  "bibAdapter e = (if e ''key'' = JUndefined then Inl AdapterError else Inr (toPropertyKey (e ''title'')))"

definition bibEnv :: "(string, string) env" where
  "bibEnv =
     \<lparr>adapter = FileSystemAdapter ''/vault'',
      workingDirectory = ''/home'',
      readLocalFile = (\<lambda>p. if p = ''/vault/refs.bib'' then Inr newExport
                            else if p = ''/vault/old.bib'' then Inr oldExport
                            else if p = ''/vault/nokey.bib'' then Inr noKeyExport
                            else if p = ''/vault/latin1.bib'' then Inr latin1Export
                            else if p = ''/vault/notes.txt'' then Inr (bytesOf ''hello'')
                            else Inl ReadError),
      decode = TextDecoder_utf8,
      loadEntries = bibLoadEntries,
      EntryBibLaTeXAdapter = bibAdapter,
      EntryCSLAdapter = bibAdapter,
      compileTemplate = (\<lambda>t. Inr (\<lambda>v. Inr (t @ v))),
      variablesOf = (\<lambda>k e. k @ '': '' @ e)\<rparr>"

text \<open>The same export as \<open>refs.bib\<close> under another name, in a vault that is not on
  the file system.\<close>

definition movedEnv :: "(string, string) env" where
  "movedEnv =
     bibEnv\<lparr>adapter := OtherAdapter,
            workingDirectory := ''/srv'',
            readLocalFile := (\<lambda>p. if p = ''/copy.bib'' then Inr newExport else Inl ReadError)\<rparr>"

definition oldLibrary :: "string library" where
  "oldLibrary = Library [(''k1'', ''Old'')]"

definition newLibrary :: "string library" where
  "newLibrary = Library [(''k1'', ''New''), (''k2'', ''Two'')]"

text \<open>The plugin as \<open>onload\<close> leaves it before the first load (\<open>library\<close> not yet
  assigned), and the same plugin holding a Library.\<close>

definition initialPlugin :: "string plugin" where
  "initialPlugin =
     \<lparr>settings = \<lparr>citationExportPath = ''refs.bib'', citationExportFormat = Biblatex,
                   literatureNoteTitleTemplate = ''@''\<rparr>,
      library = LUndefined,
      loadErrorNotifier = Notifier ''Unable to load citations.'',
      trace = []\<rparr>"

definition bibPlugin :: "string plugin" where
  "bibPlugin = initialPlugin\<lparr>library := Lib (Library [])\<rparr>"


text \<open>A plugin over the moved vault that differs from \<open>bibPlugin\<close> in everything but
  the format: another path, another library, a notice on display, an earlier effect.\<close>

definition movedPlugin :: "string plugin" where
  "movedPlugin =
     \<lparr>settings = \<lparr>citationExportPath = ''copy.bib'', citationExportFormat = Biblatex,
                   literatureNoteTitleTemplate = ''#''\<rparr>,
      library = Lib oldLibrary,
      loadErrorNotifier = snd (notifier_show None (Notifier ''Unable to load citations.'')),
      trace = [ConsoleWarnPathNotSet]\<rparr>"

text \<open>Two loads: the refresh command is triggered first, the watcher second; the read
  of the watcher's load settles first, with the newer export, and that load completes;
  the read of the command's load settles afterwards with the older export it had asked
  for before.\<close>

definition staleSchedule :: "event list" where
  "staleSchedule =
     [Trigger 1 RefreshCommand, Trigger 2 WatcherChange,
      ReadSettled 2 (Inr newExport), Assign 2,
      ReadSettled 1 (Inr oldExport)]"

section \<open>Properties of the library build step\<close>

lemma getProp_setProp: "getProp (setProp k v obj) k' = (if k' = k then Some v else getProp obj k')"
  by (induction obj) (auto simp: getProp_def)

lemma keys_setProp:
  "map fst (setProp k v obj) = (if k \<in> set (map fst obj) then map fst obj else map fst obj @ [k])"
  by (induction obj) force+

lemma fromEntries_snoc:
  "fromEntries (ps @ [(k, v)]) = setProp (toPropertyKey k) v (fromEntries ps)"
  by (simp add: fromEntries_def)

lemma distinct_keys_fromEntries: "distinct (map fst (fromEntries ps))"
proof (induction ps rule: rev_induct)
  case Nil
  show ?case by (simp add: fromEntries_def)
next
  case (snoc p ps)
  obtain k v where p: "p = (k, v)" by (cases p)
  show ?case using snoc by (simp add: p fromEntries_snoc keys_setProp)
qed

lemma mapThrowing_snoc:
  "mapThrowing f (xs @ [x]) =
     (case mapThrowing f xs of
        Inl e \<Rightarrow> Inl e
      | Inr ys \<Rightarrow> (case f x of Inl e \<Rightarrow> Inl e | Inr y \<Rightarrow> Inr (ys @ [y])))"
  by (induction xs) (auto split: sum.splits)


lemma buildLibrary_snoc:
  "buildLibrary env format (es @ [e]) = Inr lib \<Longrightarrow>
   \<exists>lib' entry. buildLibrary env format es = Inr lib' \<and> adapterOf env format e = Inr entry
      \<and> entries lib = setProp (citekeyOf format e) entry (entries lib')"
  by (auto simp: buildLibrary_def mapThrowing_snoc indexed_def fromEntries_snoc citekeyOf_def
      split: sum.splits)

lemma buildLibrary_keys:
  "buildLibrary env format es = Inr lib \<Longrightarrow> set (map fst (entries lib)) = citekeyOf format ` set es"
proof (induction es arbitrary: lib rule: rev_induct)
  case Nil
  then show ?case by (auto simp: buildLibrary_def fromEntries_def)
next
  case (snoc e es)
  from buildLibrary_snoc[OF snoc.prems] obtain lib' entry where
    b: "buildLibrary env format es = Inr lib'" and
    l: "entries lib = setProp (citekeyOf format e) entry (entries lib')" by blast
  from snoc.IH[OF b] show ?case by (auto simp: l keys_setProp)
qed

lemma buildLibrary_distinct:
  "buildLibrary env format es = Inr lib \<Longrightarrow> distinct (map fst (entries lib))"
  by (auto simp: buildLibrary_def distinct_keys_fromEntries split: sum.splits)

lemma buildLibrary_size:
  assumes "buildLibrary env format es = Inr lib"
  shows "library_size lib = card (citekeyOf format ` set es)"
proof -
  have "card (set (map fst (entries lib))) = length (map fst (entries lib))"
    using buildLibrary_distinct[OF assms] by (rule distinct_card)
  then show ?thesis
    using buildLibrary_keys[OF assms] by (simp add: library_size_def)
qed

lemma buildLibrary_latest:
  "buildLibrary env format es = Inr lib \<Longrightarrow> i < length es \<Longrightarrow>
   (\<forall>j. i < j \<and> j < length es \<longrightarrow> citekeyOf format (es ! j) \<noteq> citekeyOf format (es ! i)) \<Longrightarrow>
   \<exists>entry. adapterOf env format (es ! i) = Inr entry
          \<and> getProp (entries lib) (citekeyOf format (es ! i)) = Some entry"
proof (induction es arbitrary: lib rule: rev_induct)
  case Nil
  then show ?case by simp
next
  case (snoc e es)
  from buildLibrary_snoc[OF snoc.prems(1)] obtain lib' entry where
    b: "buildLibrary env format es = Inr lib'" and a: "adapterOf env format e = Inr entry" and
    l: "entries lib = setProp (citekeyOf format e) entry (entries lib')" by blast
  show ?case
  proof (cases "i = length es")
    case True
    then show ?thesis by (simp add: a l getProp_setProp)
  next
    case False
    with snoc.prems(2) have i: "i < length es" by simp
    have later: "\<forall>j. i < j \<and> j < length es \<longrightarrow> citekeyOf format (es ! j) \<noteq> citekeyOf format (es ! i)"
    proof (intro allI impI)
      fix j assume j: "i < j \<and> j < length es"
      with snoc.prems(3)[rule_format, of j] show "citekeyOf format (es ! j) \<noteq> citekeyOf format (es ! i)"
        by (simp add: nth_append)
    qed
    have ne: "citekeyOf format e \<noteq> citekeyOf format (es ! i)"
      using snoc.prems(3)[rule_format, of "length es"] i by (simp add: nth_append)
    from snoc.IH[OF b i later] ne show ?thesis
      using i by (auto simp: nth_append l getProp_setProp)
  qed
qed

lemma exampleRecords_build: "buildLibrary exampleEnv CslJson exampleRecords = Inr exampleLibrary"
  by (simp add: buildLibrary_def exampleRecords_def exampleEnv_def exampleLibrary_def indexed_def
      idKeyOf_def adapterOf_def fromEntries_def)

text \<open>
  C1. Whenever the build step yields a Library for a batch of parsed records, a record
  that no later record of the batch shares its citekey with is the one whose adapted
  Entry the Library holds under that citekey (of several records with one citekey
  the last in parse order wins), and the size of the Library is the number of distinct
  citekeys of the batch.
\<close>

theorem buildLibrary_last_write_wins:
  assumes "buildLibrary env format es = Inr lib"
  shows "(\<forall>i<length es.
            (\<forall>j. i < j \<and> j < length es \<longrightarrow> citekeyOf format (es ! j) \<noteq> citekeyOf format (es ! i)) \<longrightarrow>
            (\<exists>entry. adapterOf env format (es ! i) = Inr entry
                    \<and> getProp (entries lib) (citekeyOf format (es ! i)) = Some entry))
         \<and> library_size lib = card (citekeyOf format ` set es)"
  using buildLibrary_latest[OF assms] buildLibrary_size[OF assms] by blast

theorem buildLibrary_last_write_wins_witness:
  "buildLibrary exampleEnv CslJson exampleRecords = Inr exampleLibrary
   \<and> citekeyOf CslJson (exampleRecords ! 0) = citekeyOf CslJson (exampleRecords ! 2)
   \<and> adapterOf exampleEnv CslJson (exampleRecords ! 2) = Inr ''What?''
   \<and> getProp (entries exampleLibrary) ''a'' = Some ''What?''
   \<and> library_size exampleLibrary = 2
   \<and> card (citekeyOf CslJson ` set exampleRecords) = 2"
proof -
  have len: "length exampleRecords = 3"
    by (simp add: exampleRecords_def)
  have keys: "citekeyOf CslJson (exampleRecords ! 0) = ''a''"
    "citekeyOf CslJson (exampleRecords ! 2) = ''a''"
    by (simp_all add: exampleRecords_def citekeyOf_def idKeyOf_def)
  have ad: "adapterOf exampleEnv CslJson (exampleRecords ! 2) = Inr ''What?''"
    by (simp add: exampleRecords_def adapterOf_def exampleEnv_def)
  have sz: "library_size exampleLibrary = 2"
    by (simp add: library_size_def exampleLibrary_def)
  note lw = buildLibrary_last_write_wins[OF exampleRecords_build]
  have i: "2 < length exampleRecords"
    using len by simp
  have none_later: "\<forall>j. 2 < j \<and> j < length exampleRecords \<longrightarrow>
      citekeyOf CslJson (exampleRecords ! j) \<noteq> citekeyOf CslJson (exampleRecords ! 2)"
    using len by (intro allI impI) arith
  from lw i none_later
  have "\<exists>entry. adapterOf exampleEnv CslJson (exampleRecords ! 2) = Inr entry
          \<and> getProp (entries exampleLibrary) (citekeyOf CslJson (exampleRecords ! 2)) = Some entry"
    by blast
  with ad keys have g: "getProp (entries exampleLibrary) ''a'' = Some ''What?''"
    by auto
  from lw sz have "card (citekeyOf CslJson ` set exampleRecords) = 2"
    by simp
  with exampleRecords_build keys ad g sz show ?thesis
    by simp
qed

text \<open>
  C5. Whenever the build step yields a Library, the keys of the Library are the values
  of the field \<open>key\<close> of the records when the format is biblatex and the values of
  the field \<open>id\<close> when it is csl-json (as property keys), and every record of the
  batch is found under the key taken from that field.
\<close>

theorem citekey_field_by_format:
  assumes "buildLibrary env format es = Inr lib"
  shows "set (map fst (entries lib))
           = (\<lambda>e. toPropertyKey (e (case format of Biblatex \<Rightarrow> ''key'' | CslJson \<Rightarrow> ''id''))) ` set es
         \<and> (\<forall>e\<in>set es.
              getProp (entries lib)
                (toPropertyKey (e (case format of Biblatex \<Rightarrow> ''key'' | CslJson \<Rightarrow> ''id''))) \<noteq> None)"
proof -
  have k: "citekeyOf format = (\<lambda>e. toPropertyKey (e (case format of Biblatex \<Rightarrow> ''key'' | CslJson \<Rightarrow> ''id'')))"
    by (simp add: citekeyOf_def idKeyOf_def fun_eq_iff)
  have keys: "set (map fst (entries lib)) = citekeyOf format ` set es"
    by (rule buildLibrary_keys[OF assms])
  have "\<forall>e\<in>set es. getProp (entries lib) (citekeyOf format e) \<noteq> None"
  proof
    fix e assume "e \<in> set es"
    with keys have "citekeyOf format e \<in> fst ` set (entries lib)" by auto
    then show "getProp (entries lib) (citekeyOf format e) \<noteq> None"
      by (simp add: getProp_def map_of_eq_None_iff)
  qed
  with keys show ?thesis unfolding k by simp
qed

theorem citekey_field_by_format_witness:
  "buildLibrary exampleEnv Biblatex exampleRecords
     = Inr (Library [(''k1'', ''A/B''), (''k2'', ''Second''), (''k3'', ''What?'')])
   \<and> buildLibrary exampleEnv CslJson exampleRecords = Inr exampleLibrary
   \<and> (\<lambda>e. toPropertyKey (e ''key'')) ` set exampleRecords = {''k1'', ''k2'', ''k3''}
   \<and> (\<lambda>e. toPropertyKey (e ''id'')) ` set exampleRecords = {''a'', ''b''}"
proof -
  have b: "buildLibrary exampleEnv Biblatex exampleRecords
     = Inr (Library [(''k1'', ''A/B''), (''k2'', ''Second''), (''k3'', ''What?'')])"
    by (simp add: buildLibrary_def exampleRecords_def exampleEnv_def indexed_def
        idKeyOf_def adapterOf_def fromEntries_def)
  from citekey_field_by_format[OF b]
  have kb: "(\<lambda>e. toPropertyKey (e ''key'')) ` set exampleRecords = {''k1'', ''k2'', ''k3''}"
    by auto
  from citekey_field_by_format[OF exampleRecords_build]
  have kc: "(\<lambda>e. toPropertyKey (e ''id'')) ` set exampleRecords = {''a'', ''b''}"
    by (auto simp: exampleLibrary_def)
  from b exampleRecords_build kb kc show ?thesis by blast
qed

section \<open>Facts about the second installation\<close>

lemma decoded_oldExport: "TextDecoder_utf8 oldExport = ''@a{k1,title={Old}}''"
  unfolding oldExport_def by code_simp

lemma decoded_newExport: "TextDecoder_utf8 newExport = ''@a{k1,title={New}}@a{k2,title={Two}}''"
  unfolding newExport_def by code_simp





lemma bibEnv_fields:
  "decode bibEnv = TextDecoder_utf8"
  "loadEntries bibEnv = bibLoadEntries"
  "EntryBibLaTeXAdapter bibEnv = bibAdapter"
  "EntryCSLAdapter bibEnv = bibAdapter"
  "vaultRoot bibEnv = ''/vault''"
  "workingDirectory bibEnv = ''/home''"
  by (simp_all add: bibEnv_def vaultRoot_def)

lemma movedEnv_fields:
  "decode movedEnv = TextDecoder_utf8"
  "loadEntries movedEnv = bibLoadEntries"
  "EntryBibLaTeXAdapter movedEnv = bibAdapter"
  "EntryCSLAdapter movedEnv = bibAdapter"
  "vaultRoot movedEnv = ''/''"
  "workingDirectory movedEnv = ''/srv''"
  by (simp_all add: movedEnv_def bibEnv_def vaultRoot_def)

lemma bibEnv_paths:
  "resolveLibraryPath bibEnv ''refs.bib'' = ''/vault/refs.bib''"
  "resolveLibraryPath bibEnv ''old.bib'' = ''/vault/old.bib''"
  "resolveLibraryPath bibEnv ''nokey.bib'' = ''/vault/nokey.bib''"
  "resolveLibraryPath bibEnv ''latin1.bib'' = ''/vault/latin1.bib''"
  "resolveLibraryPath bibEnv ''notes.txt'' = ''/vault/notes.txt''"
  "resolveLibraryPath bibEnv ''gone.bib'' = ''/vault/gone.bib''"
  "resolveLibraryPath movedEnv ''copy.bib'' = ''/copy.bib''"
  by (simp_all add: resolveLibraryPath_def bibEnv_fields movedEnv_fields path_resolve_def
      normalizeString_def)

lemma bibEnv_files:
  "readLocalFile bibEnv ''/vault/refs.bib'' = Inr newExport"
  "readLocalFile bibEnv ''/vault/old.bib'' = Inr oldExport"
  "readLocalFile bibEnv ''/vault/nokey.bib'' = Inr noKeyExport"
  "readLocalFile bibEnv ''/vault/latin1.bib'' = Inr latin1Export"
  "readLocalFile bibEnv ''/vault/notes.txt'' = Inr (bytesOf ''hello'')"
  "readLocalFile bibEnv ''/vault/gone.bib'' = Inl ReadError"
  "readLocalFile movedEnv ''/copy.bib'' = Inr newExport"
  by (simp_all add: bibEnv_def movedEnv_def)

lemma bib_parsed:
  "bibLoadEntries ''@a{k1,title={Old}}'' Biblatex = Inr [bibRecord (JStr ''k1'') ''Old'']"
  "bibLoadEntries ''@a{k1,title={New}}@a{k2,title={Two}}'' Biblatex
     = Inr [bibRecord (JStr ''k1'') ''New'', bibRecord (JStr ''k2'') ''Two'']"
  "bibLoadEntries ''@a{,title={None}}'' Biblatex = Inr [bibRecord JUndefined ''None'']"
  "bibLoadEntries (''@a{k1,title={'' @ [CHR 0xEF, CHR 0xBF, CHR 0xBD] @ ''}}'') Biblatex
     = Inr [bibRecord (JStr ''k1'') [CHR 0xEF, CHR 0xBF, CHR 0xBD]]"
  "bibLoadEntries ''hello'' Biblatex = Inl ParseError"
  by (simp_all add: bibLoadEntries_def)

lemma bib_built:
  "buildLibrary bibEnv Biblatex [bibRecord (JStr ''k1'') ''Old''] = Inr oldLibrary"
  "buildLibrary bibEnv Biblatex [bibRecord (JStr ''k1'') ''New'', bibRecord (JStr ''k2'') ''Two'']
     = Inr newLibrary"
  "buildLibrary bibEnv Biblatex [bibRecord (JStr ''k1'') [CHR 0xEF, CHR 0xBF, CHR 0xBD]]
     = Inr (Library [(''k1'', [CHR 0xEF, CHR 0xBF, CHR 0xBD])])"
  "buildLibrary movedEnv Biblatex [bibRecord (JStr ''k1'') ''New'', bibRecord (JStr ''k2'') ''Two'']
     = Inr newLibrary"
  by (simp_all add: buildLibrary_def indexed_def idKeyOf_def adapterOf_def fromEntries_def
      bibEnv_fields movedEnv_fields bibAdapter_def bibRecord_def oldLibrary_def newLibrary_def)


lemma loadLibrary_try_Inr:
  assumes "loadEntries env (decode env buffer) (citationExportFormat (settings s)) = Inr es"
    and "buildLibrary env (citationExportFormat (settings s)) es = Inr built"
    and "library s = Lib l0"
  shows "loadLibrary_try env s (Inr buffer) = Inr (built, library_size l0)"
  using assms by (simp add: loadLibrary_try_def)

lemma bib_resume:
  assumes "citationExportFormat (settings s) = Biblatex" and "library s = Lib l0"
  shows "loadLibrary_resume bibEnv s (Inr newExport)
           = (Some newLibrary, s\<lparr>trace := trace s @ [ConsoleDebugLoaded (library_size l0)]\<rparr>)"
    and "loadLibrary_resume bibEnv s (Inr oldExport)
           = (Some oldLibrary, s\<lparr>trace := trace s @ [ConsoleDebugLoaded (library_size l0)]\<rparr>)"
proof -
  have pn: "loadEntries bibEnv (decode bibEnv newExport) (citationExportFormat (settings s))
              = Inr [bibRecord (JStr ''k1'') ''New'', bibRecord (JStr ''k2'') ''Two'']"
    by (simp add: assms bibEnv_fields decoded_newExport bib_parsed)
  have bn: "buildLibrary bibEnv (citationExportFormat (settings s))
              [bibRecord (JStr ''k1'') ''New'', bibRecord (JStr ''k2'') ''Two''] = Inr newLibrary"
    by (simp add: assms bib_built)
  from loadLibrary_try_Inr[OF pn bn assms(2)]
  show "loadLibrary_resume bibEnv s (Inr newExport)
           = (Some newLibrary, s\<lparr>trace := trace s @ [ConsoleDebugLoaded (library_size l0)]\<rparr>)"
    by (simp add: loadLibrary_resume_def)
  have po: "loadEntries bibEnv (decode bibEnv oldExport) (citationExportFormat (settings s))
              = Inr [bibRecord (JStr ''k1'') ''Old'']"
    by (simp add: assms bibEnv_fields decoded_oldExport bib_parsed)
  have bo: "buildLibrary bibEnv (citationExportFormat (settings s))
              [bibRecord (JStr ''k1'') ''Old''] = Inr oldLibrary"
    by (simp add: assms bib_built)
  from loadLibrary_try_Inr[OF po bo assms(2)]
  show "loadLibrary_resume bibEnv s (Inr oldExport)
           = (Some oldLibrary, s\<lparr>trace := trace s @ [ConsoleDebugLoaded (library_size l0)]\<rparr>)"
    by (simp add: loadLibrary_resume_def)
qed

section \<open>Properties of loadLibrary\<close>

lemma loadLibrary_try_trace [simp]:
  "loadLibrary_try env (s\<lparr>trace := t\<rparr>) r = loadLibrary_try env s r"
  by (simp add: loadLibrary_try_def split: sum.splits)

lemma loadLibrary_unset:
  "citationExportPath (settings s) = [] \<Longrightarrow>
   loadLibrary env s = (None, s\<lparr>trace := trace s @ [ConsoleDebugReloading, ConsoleWarnPathNotSet]\<rparr>)"
  by (simp add: loadLibrary_def loadLibrary_start_def)

lemma loadLibrary_caught:
  assumes "citationExportPath (settings s) \<noteq> []"
    and "loadLibrary_try env s
           (readLocalFile env (resolveLibraryPath env (citationExportPath (settings s)))) = Inl x"
  shows "loadLibrary env s
           = (None, s\<lparr>trace := trace s @ [ConsoleDebugReloading, ConsoleError x, LoadErrorNotifierShow],
                      loadErrorNotifier := snd (notifier_show None (loadErrorNotifier s))\<rparr>)"
  using assms by (simp add: loadLibrary_def loadLibrary_start_def loadLibrary_resume_def)

lemma loadLibrary_returned:
  assumes "citationExportPath (settings s) \<noteq> []"
    and "loadLibrary_try env s
           (readLocalFile env (resolveLibraryPath env (citationExportPath (settings s)))) = Inr (l, n)"
  shows "loadLibrary env s
           = (Some l, s\<lparr>trace := trace s @ [ConsoleDebugReloading, ConsoleDebugLoaded n]\<rparr>)"
  using assms by (simp add: loadLibrary_def loadLibrary_start_def loadLibrary_resume_def)


text \<open>
  C9. When the configured export path is empty, \<open>loadLibrary\<close> returns \<open>null\<close>, the
  plugin is left as it was but for two console calls (the debug line that every call
  starts with, and the warning), and the load-error Notifier is not called; whereas
  when the path is set and the read or the parse fails, the call of the Notifier is
  among the effects.
\<close>

theorem loadLibrary_path_unset_no_notice:
  "(citationExportPath (settings s) = [] \<longrightarrow>
      loadLibrary env s
        = (None, s\<lparr>trace := trace s @ [ConsoleDebugReloading, ConsoleWarnPathNotSet]\<rparr>)
      \<and> loadErrorNotifier (snd (loadLibrary env s)) = loadErrorNotifier s
      \<and> LoadErrorNotifierShow \<notin> set (drop (length (trace s)) (trace (snd (loadLibrary env s)))))
   \<and> (citationExportPath (settings s) \<noteq> []
        \<and> (readLocalFile env (resolveLibraryPath env (citationExportPath (settings s))) = Inl x
            \<or> (\<exists>buffer.
                 readLocalFile env (resolveLibraryPath env (citationExportPath (settings s))) = Inr buffer
                 \<and> loadEntries env (decode env buffer) (citationExportFormat (settings s)) = Inl x)) \<longrightarrow>
      fst (loadLibrary env s) = None
      \<and> drop (length (trace s)) (trace (snd (loadLibrary env s)))
          = [ConsoleDebugReloading, ConsoleError x, LoadErrorNotifierShow])"
proof (intro conjI impI)
  assume "citationExportPath (settings s) = []"
  then have u: "loadLibrary env s
        = (None, s\<lparr>trace := trace s @ [ConsoleDebugReloading, ConsoleWarnPathNotSet]\<rparr>)"
    by (rule loadLibrary_unset)
  show "loadLibrary env s
        = (None, s\<lparr>trace := trace s @ [ConsoleDebugReloading, ConsoleWarnPathNotSet]\<rparr>)"
    by (rule u)
  show "loadErrorNotifier (snd (loadLibrary env s)) = loadErrorNotifier s"
    by (simp add: u)
  show "LoadErrorNotifierShow \<notin> set (drop (length (trace s)) (trace (snd (loadLibrary env s))))"
    by (simp add: u)
next
  assume a: "citationExportPath (settings s) \<noteq> []
        \<and> (readLocalFile env (resolveLibraryPath env (citationExportPath (settings s))) = Inl x
            \<or> (\<exists>buffer.
                 readLocalFile env (resolveLibraryPath env (citationExportPath (settings s))) = Inr buffer
                 \<and> loadEntries env (decode env buffer) (citationExportFormat (settings s)) = Inl x))"
  then have "loadLibrary_try env s
           (readLocalFile env (resolveLibraryPath env (citationExportPath (settings s)))) = Inl x"
    by (auto simp: loadLibrary_try_def)
  with a have c: "loadLibrary env s
           = (None, s\<lparr>trace := trace s @ [ConsoleDebugReloading, ConsoleError x, LoadErrorNotifierShow],
                      loadErrorNotifier := snd (notifier_show None (loadErrorNotifier s))\<rparr>)"
    by (simp add: loadLibrary_caught)
  show "fst (loadLibrary env s) = None"
    by (simp add: c)
  show "drop (length (trace s)) (trace (snd (loadLibrary env s)))
          = [ConsoleDebugReloading, ConsoleError x, LoadErrorNotifierShow]"
    by (simp add: c)
qed

theorem loadLibrary_path_unset_no_notice_witness:
  "citationExportPath (settings (examplePlugin\<lparr>settings := (settings examplePlugin)\<lparr>citationExportPath := []\<rparr>\<rparr>)) = []
   \<and> loadLibrary exampleEnv (examplePlugin\<lparr>settings := (settings examplePlugin)\<lparr>citationExportPath := []\<rparr>\<rparr>)
       = (None, examplePlugin\<lparr>settings := (settings examplePlugin)\<lparr>citationExportPath := []\<rparr>,
                              trace := [ConsoleDebugReloading, ConsoleWarnPathNotSet]\<rparr>)
   \<and> readLocalFile exampleEnv (resolveLibraryPath exampleEnv ''gone.json'') = Inl ReadError
   \<and> trace (snd (loadLibrary exampleEnv
        (examplePlugin\<lparr>settings := (settings examplePlugin)\<lparr>citationExportPath := ''gone.json''\<rparr>\<rparr>)))
       = [ConsoleDebugReloading, ConsoleError ReadError, LoadErrorNotifierShow]"
proof -
  have r: "resolveLibraryPath exampleEnv ''gone.json'' = ''/vault/gone.json''"
    by (simp add: resolveLibraryPath_def vaultRoot_def exampleEnv_def path_resolve_def normalizeString_def)
  have f: "readLocalFile exampleEnv (resolveLibraryPath exampleEnv ''gone.json'') = Inl ReadError"
    by (simp add: r) (simp add: exampleEnv_def)
  have t: "trace examplePlugin = []"
    by (simp add: examplePlugin_def)
  from loadLibrary_path_unset_no_notice
         [of "examplePlugin\<lparr>settings := (settings examplePlugin)\<lparr>citationExportPath := []\<rparr>\<rparr>"
             exampleEnv ReadError]
  have u: "loadLibrary exampleEnv (examplePlugin\<lparr>settings := (settings examplePlugin)\<lparr>citationExportPath := []\<rparr>\<rparr>)
       = (None, examplePlugin\<lparr>settings := (settings examplePlugin)\<lparr>citationExportPath := []\<rparr>,
                              trace := [ConsoleDebugReloading, ConsoleWarnPathNotSet]\<rparr>)"
    by (simp add: t)
  from loadLibrary_path_unset_no_notice
         [of "examplePlugin\<lparr>settings := (settings examplePlugin)\<lparr>citationExportPath := ''gone.json''\<rparr>\<rparr>"
             exampleEnv ReadError]
  have c: "trace (snd (loadLibrary exampleEnv
        (examplePlugin\<lparr>settings := (settings examplePlugin)\<lparr>citationExportPath := ''gone.json''\<rparr>\<rparr>)))
       = [ConsoleDebugReloading, ConsoleError ReadError, LoadErrorNotifierShow]"
    using f by (simp add: t)
  from u f c show ?thesis by simp
qed

lemma loadLibrary_Some:
  assumes "loadLibrary env s = (Some l, t)"
  shows "citationExportPath (settings s) \<noteq> []
         \<and> (\<exists>buffer es.
               readLocalFile env (resolveLibraryPath env (citationExportPath (settings s))) = Inr buffer
               \<and> loadEntries env (decode env buffer) (citationExportFormat (settings s)) = Inr es
               \<and> buildLibrary env (citationExportFormat (settings s)) es = Inr l)"
proof -
  have p: "citationExportPath (settings s) \<noteq> []"
    using assms by (auto simp: loadLibrary_unset)
  let ?r = "readLocalFile env (resolveLibraryPath env (citationExportPath (settings s)))"
  have "\<exists>n. loadLibrary_try env s ?r = Inr (l, n)"
  proof (cases "loadLibrary_try env s ?r")
    case (Inl x)
    from loadLibrary_caught[OF p Inl] assms show ?thesis by simp
  next
    case (Inr ln)
    obtain l' n where ln: "ln = (l', n)" by (cases ln)
    from loadLibrary_returned[OF p Inr[unfolded ln]] assms have "l' = l" by simp
    with Inr ln show ?thesis by simp
  qed
  then obtain n where "loadLibrary_try env s ?r = Inr (l, n)" ..
  then have "\<exists>buffer es. ?r = Inr buffer
               \<and> loadEntries env (decode env buffer) (citationExportFormat (settings s)) = Inr es
               \<and> buildLibrary env (citationExportFormat (settings s)) es = Inr l"
    by (auto simp: loadLibrary_try_def split: sum.splits libref.splits)
  with p show ?thesis by simp
qed









lemma buildLibrary_same_adapters:
  assumes "EntryBibLaTeXAdapter env1 = EntryBibLaTeXAdapter env2"
    and "EntryCSLAdapter env1 = EntryCSLAdapter env2"
  shows "buildLibrary env1 format es = buildLibrary env2 format es"
proof -
  have "adapterOf env1 format = adapterOf env2 format"
    using assms by (simp add: adapterOf_def split: databaseType.splits)
  then show ?thesis by (simp add: buildLibrary_def)
qed

text \<open>
  C7. Take two calls of \<open>loadLibrary\<close> that both return a Library, made in any two
  plugin states and any two installations that have the decoder, the parser and the
  adapters in common, with the same export format, and whose reads deliver the same
  content. Then the two Libraries are the same: the same keys in the same order and the
  same Entry under every key. The path, the vault, the other files, the library, the
  Notifier and the earlier effects of the two plugins may all differ. What is returned
  is the Library of the content read: it is built from the records that the parser gives
  for the decoded content, and its keys are the citekeys of these records.
\<close>

theorem loadLibrary_deterministic:
  assumes "loadLibrary env1 s1 = (Some l1, t1)"
    and "loadLibrary env2 s2 = (Some l2, t2)"
    and "readLocalFile env1 (resolveLibraryPath env1 (citationExportPath (settings s1)))
           = readLocalFile env2 (resolveLibraryPath env2 (citationExportPath (settings s2)))"
    and "citationExportFormat (settings s1) = citationExportFormat (settings s2)"
    and "decode env1 = decode env2"
    and "loadEntries env1 = loadEntries env2"
    and "EntryBibLaTeXAdapter env1 = EntryBibLaTeXAdapter env2"
    and "EntryCSLAdapter env1 = EntryCSLAdapter env2"
  shows "l1 = l2
         \<and> map fst (entries l1) = map fst (entries l2)
         \<and> (\<forall>k. getProp (entries l1) k = getProp (entries l2) k)
         \<and> (\<exists>content es.
               readLocalFile env1 (resolveLibraryPath env1 (citationExportPath (settings s1))) = Inr content
               \<and> readLocalFile env2 (resolveLibraryPath env2 (citationExportPath (settings s2))) = Inr content
               \<and> loadEntries env1 (decode env1 content) (citationExportFormat (settings s1)) = Inr es
               \<and> buildLibrary env1 (citationExportFormat (settings s1)) es = Inr l1
               \<and> set (map fst (entries l1)) = citekeyOf (citationExportFormat (settings s1)) ` set es)"
proof -
  let ?f = "citationExportFormat (settings s1)"
  from loadLibrary_Some[OF assms(1)] obtain c1 es1 where
    r1: "readLocalFile env1 (resolveLibraryPath env1 (citationExportPath (settings s1))) = Inr c1"
    and p1: "loadEntries env1 (decode env1 c1) ?f = Inr es1"
    and b1: "buildLibrary env1 ?f es1 = Inr l1"
    by blast
  from loadLibrary_Some[OF assms(2)] obtain c2 es2 where
    r2: "readLocalFile env2 (resolveLibraryPath env2 (citationExportPath (settings s2))) = Inr c2"
    and p2: "loadEntries env2 (decode env2 c2) (citationExportFormat (settings s2)) = Inr es2"
    and b2: "buildLibrary env2 (citationExportFormat (settings s2)) es2 = Inr l2"
    by blast
  from r1 r2 assms(3) have c: "c2 = c1" by simp
  from p1 p2 assms(4,5,6) have e: "es2 = es1" by (simp add: c)
  from b1 b2 buildLibrary_same_adapters[OF assms(7,8), of ?f es1] assms(4)
  have l: "l1 = l2" by (simp add: e)
  have k: "set (map fst (entries l1)) = citekeyOf ?f ` set es1"
    by (rule buildLibrary_keys[OF b1])
  from r1 r2 p1 b1 k have "\<exists>content es.
               readLocalFile env1 (resolveLibraryPath env1 (citationExportPath (settings s1))) = Inr content
               \<and> readLocalFile env2 (resolveLibraryPath env2 (citationExportPath (settings s2))) = Inr content
               \<and> loadEntries env1 (decode env1 content) ?f = Inr es
               \<and> buildLibrary env1 ?f es = Inr l1
               \<and> set (map fst (entries l1)) = citekeyOf ?f ` set es"
    unfolding c by blast
  with l show ?thesis by simp
qed

lemma bib_loads:
  "loadLibrary bibEnv bibPlugin
     = (Some newLibrary, bibPlugin\<lparr>trace := [ConsoleDebugReloading, ConsoleDebugLoaded 0]\<rparr>)"
  "loadLibrary bibEnv (bibPlugin\<lparr>settings := (settings bibPlugin)\<lparr>citationExportPath := ''old.bib''\<rparr>\<rparr>)
     = (Some oldLibrary,
        bibPlugin\<lparr>settings := (settings bibPlugin)\<lparr>citationExportPath := ''old.bib''\<rparr>,
                  trace := [ConsoleDebugReloading, ConsoleDebugLoaded 0]\<rparr>)"
  by (simp_all add: loadLibrary_def loadLibrary_start_def bibPlugin_def initialPlugin_def
      bibEnv_paths bibEnv_files bib_resume library_size_def)

theorem loadLibrary_deterministic_witness:
  "loadLibrary bibEnv bibPlugin
     = (Some newLibrary, bibPlugin\<lparr>trace := [ConsoleDebugReloading, ConsoleDebugLoaded 0]\<rparr>)
   \<and> readLocalFile bibEnv (resolveLibraryPath bibEnv (citationExportPath (settings bibPlugin)))
       = Inr newExport
   \<and> readLocalFile movedEnv (resolveLibraryPath movedEnv (citationExportPath (settings movedPlugin)))
       = Inr newExport
   \<and> library movedPlugin = Lib oldLibrary \<and> library bibPlugin = Lib (Library [])
   \<and> fst (loadLibrary movedEnv movedPlugin) = Some newLibrary
   \<and> fst (loadLibrary bibEnv
             (bibPlugin\<lparr>settings := (settings bibPlugin)\<lparr>citationExportPath := ''old.bib''\<rparr>\<rparr>))
       = Some oldLibrary
   \<and> map fst (entries newLibrary) = [''k1'', ''k2'']
   \<and> map fst (entries oldLibrary) = [''k1'']"
proof -
  have a: "loadLibrary bibEnv bibPlugin
     = (Some newLibrary, bibPlugin\<lparr>trace := [ConsoleDebugReloading, ConsoleDebugLoaded 0]\<rparr>)"
    by (rule bib_loads(1))
  have p1: "citationExportPath (settings bibPlugin) = ''refs.bib''"
    and f1: "citationExportFormat (settings bibPlugin) = Biblatex"
    and l1: "library bibPlugin = Lib (Library [])"
    by (simp_all add: bibPlugin_def initialPlugin_def)
  have p2: "citationExportPath (settings movedPlugin) = ''copy.bib''"
    and f2: "citationExportFormat (settings movedPlugin) = Biblatex"
    and l2: "library movedPlugin = Lib oldLibrary"
    by (simp_all add: movedPlugin_def)
  have r1: "readLocalFile bibEnv (resolveLibraryPath bibEnv (citationExportPath (settings bibPlugin)))
       = Inr newExport"
    by (simp add: p1 bibEnv_paths bibEnv_files)
  have r2: "readLocalFile movedEnv (resolveLibraryPath movedEnv (citationExportPath (settings movedPlugin)))
       = Inr newExport"
    by (simp add: p2 bibEnv_paths bibEnv_files)
  have "\<exists>n. loadLibrary_try movedEnv movedPlugin (Inr newExport) = Inr (newLibrary, n)"
    using loadLibrary_try_Inr[of movedEnv newExport movedPlugin
        "[bibRecord (JStr ''k1'') ''New'', bibRecord (JStr ''k2'') ''Two'']" newLibrary oldLibrary]
    by (simp add: f2 l2 movedEnv_fields decoded_newExport bib_parsed bib_built)
  then obtain n where "loadLibrary_try movedEnv movedPlugin
       (readLocalFile movedEnv (resolveLibraryPath movedEnv (citationExportPath (settings movedPlugin))))
       = Inr (newLibrary, n)"
    by (auto simp: r2)
  from loadLibrary_returned[OF _ this]
  have "\<exists>l t. loadLibrary movedEnv movedPlugin = (Some l, t)"
    by (simp add: p2)
  then obtain l t where b: "loadLibrary movedEnv movedPlugin = (Some l, t)" by blast
  have same: "readLocalFile bibEnv (resolveLibraryPath bibEnv (citationExportPath (settings bibPlugin)))
       = readLocalFile movedEnv (resolveLibraryPath movedEnv (citationExportPath (settings movedPlugin)))"
    by (simp only: r1 r2)
  have fmt: "citationExportFormat (settings bibPlugin) = citationExportFormat (settings movedPlugin)"
    by (simp only: f1 f2)
  from loadLibrary_deterministic[OF a b same fmt]
  have "newLibrary = l"
    by (simp add: bibEnv_fields movedEnv_fields)
  with b have moved: "fst (loadLibrary movedEnv movedPlugin) = Some newLibrary"
    by simp
  have old: "fst (loadLibrary bibEnv
             (bibPlugin\<lparr>settings := (settings bibPlugin)\<lparr>citationExportPath := ''old.bib''\<rparr>\<rparr>))
       = Some oldLibrary"
    by (simp add: bib_loads(2))
  have keys: "map fst (entries newLibrary) = [''k1'', ''k2'']" "map fst (entries oldLibrary) = [''k1'']"
    by (simp_all add: newLibrary_def oldLibrary_def)
  from a r1 r2 l2 l1 moved old keys show ?thesis by simp
qed

section \<open>Properties of getTitleForCitekey\<close>

lemma replaceDisallowed_clean:
  "set (replaceDisallowed u) \<inter> set DISALLOWED_FILENAME_CHARACTERS = {}"
  by (auto simp: replaceDisallowed_def DISALLOWED_FILENAME_CHARACTERS_def)

text \<open>
  C10. When the library of the plugin holds the citekey, the title template compiles
  and its rendering of the bundle of the entry succeeds with \<open>u\<close>,
  \<open>getTitleForCitekey\<close> returns a title of the length of \<open>u\<close> that has an
  underscore wherever \<open>u\<close> has one of the characters \<^verbatim>\<open>* " \ / < > : | ?\<close> and the
  character of \<open>u\<close> everywhere else; so none of these characters occurs in it.
\<close>

theorem getTitleForCitekey_sanitized:
  assumes "library s = Lib l"
    and "getProp (entries l) citekey = Some e"
    and "compileTemplate env (literatureNoteTitleTemplate (settings s)) = Inr template"
    and "template (variablesOf env citekey e) = Inr u"
  shows "\<exists>t. getTitleForCitekey env s citekey = Inr t
           \<and> length t = length u
           \<and> (\<forall>i<length u.
                 t ! i = (if u ! i \<in> {CHR ''*'', CHR 0x22, CHR 0x5C, CHR ''/'', CHR ''<'', CHR ''>'',
                                       CHR '':'', CHR ''|'', CHR ''?''}
                          then CHR ''_'' else u ! i))
           \<and> set t \<inter> {CHR ''*'', CHR 0x22, CHR 0x5C, CHR ''/'', CHR ''<'', CHR ''>'',
                        CHR '':'', CHR ''|'', CHR ''?''} = {}"
proof -
  have d: "set DISALLOWED_FILENAME_CHARACTERS
             = {CHR ''*'', CHR 0x22, CHR 0x5C, CHR ''/'', CHR ''<'', CHR ''>'', CHR '':'', CHR ''|'', CHR ''?''}"
    by (simp add: DISALLOWED_FILENAME_CHARACTERS_def)
  have "unsafeTitle env s citekey = Inr u"
    using assms by (simp add: unsafeTitle_def getTemplateVariablesForCitekey_def)
  then have "getTitleForCitekey env s citekey = Inr (replaceDisallowed u)"
    by (simp add: getTitleForCitekey_def)
  moreover have "length (replaceDisallowed u) = length u"
    by (simp add: replaceDisallowed_def)
  moreover have "\<forall>i<length u. replaceDisallowed u ! i
        = (if u ! i \<in> set DISALLOWED_FILENAME_CHARACTERS then CHR ''_'' else u ! i)"
    by (simp add: replaceDisallowed_def)
  ultimately show ?thesis
    using replaceDisallowed_clean[of u] unfolding d by blast
qed

theorem getTitleForCitekey_sanitized_witness:
  "library examplePlugin = Lib exampleLibrary
   \<and> getProp (entries exampleLibrary) ''a'' = Some ''What?''
   \<and> compileTemplate exampleEnv (literatureNoteTitleTemplate (settings examplePlugin))
       = Inr (\<lambda>v. Inr (''@'' @ v))
   \<and> Inr (''@'' @ variablesOf exampleEnv ''a'' ''What?'') = (Inr ''@a: What?'' :: exn + string)
   \<and> getTitleForCitekey exampleEnv examplePlugin ''a'' = Inr ''@a_ What_''"
proof -
  have h1: "library examplePlugin = Lib exampleLibrary"
    by (simp add: examplePlugin_def)
  have h2: "getProp (entries exampleLibrary) ''a'' = Some ''What?''"
    by (simp add: exampleLibrary_def getProp_def)
  have h3: "compileTemplate exampleEnv (literatureNoteTitleTemplate (settings examplePlugin))
       = Inr (\<lambda>v. Inr (''@'' @ v))"
    by (simp add: exampleEnv_def examplePlugin_def)
  have h4: "(\<lambda>v. Inr (''@'' @ v)) (variablesOf exampleEnv ''a'' ''What?'') = (Inr ''@a: What?'' :: exn + string)"
    by (simp add: exampleEnv_def)
  from getTitleForCitekey_sanitized[OF h1 h2 h3 h4]
  obtain t where t: "getTitleForCitekey exampleEnv examplePlugin ''a'' = Inr t"
    and len: "length t = length ''@a: What?''"
    and each: "\<forall>i<length ''@a: What?''.
                 t ! i = (if ''@a: What?'' ! i \<in> {CHR ''*'', CHR 0x22, CHR 0x5C, CHR ''/'', CHR ''<'', CHR ''>'',
                                       CHR '':'', CHR ''|'', CHR ''?''}
                          then CHR ''_'' else ''@a: What?'' ! i)"
    by blast
  have "t = ''@a_ What_''"
  proof (rule nth_equalityI)
    show "length t = length ''@a_ What_''" using len by simp
    fix i assume "i < length t"
    then have i: "i < 9" using len by simp
    then have "i \<in> {0, 1, 2, 3, 4, 5, 6, 7, 8}" by auto
    then show "t ! i = ''@a_ What_'' ! i"
      using each by (elim insertE emptyE) simp_all
  qed
  with t h1 h2 h3 h4 show ?thesis by simp
qed

section \<open>Properties of the Notifier\<close>

lemma notifier_inv_init: "notifier_inv (Notifier m)"
  by (simp add: notifier_inv_def Notifier_def)

lemma notifier_inv_show: "notifier_inv n \<Longrightarrow> notifier_inv (snd (notifier_show message n))"
  by (auto simp: notifier_inv_def notifier_show_def Let_def)

lemma notifier_inv_hide: "notifier_inv n \<Longrightarrow> notifier_inv (notifier_hide n)"
  by (auto simp: notifier_inv_def notifier_hide_def split: option.splits)

lemma notifier_inv_classChanged: "notifier_inv n \<Longrightarrow> notifier_inv (classChanged i d n)"
  by (auto simp: notifier_inv_def classChanged_def Let_def split: if_splits)

lemma notifier_inv_removed: "notifier_inv n \<Longrightarrow> notifier_inv (removed i n)"
  by (auto simp: notifier_inv_def removed_def split: if_splits)

lemma notifier_inv_step: "notifier_inv n \<Longrightarrow> notifier_inv (notifier_step n ev)"
  by (cases ev)
     (simp_all add: notifier_inv_show notifier_inv_hide notifier_inv_classChanged
        notifier_inv_removed notifier_unload_def)

lemma notifier_inv_run: "notifier_inv n \<Longrightarrow> notifier_inv (notifier_run n evs)"
  unfolding notifier_run_def
  by (induction evs arbitrary: n) (simp_all add: notifier_inv_step)

lemma notifier_show_suppressed:
  "currentNotice n \<noteq> None \<Longrightarrow> notifier_show message n = (Some False, n)"
  by (simp add: notifier_show_def Let_def)

text \<open>
  C4. After any sequence of calls of \<open>show\<close>, \<open>hide\<close> and \<open>unload\<close> and of
  changes that the host makes to notices, starting from a new Notifier, at most one
  notice of the Notifier is on screen; and when one is on screen, a call of \<open>show\<close>
  returns \<open>false\<close> and leaves the Notifier, with the notice on screen and the count
  of notices created, as it was. The same holds of any Notifier whose
  \<open>currentNotice\<close> is set.
\<close>

theorem notifier_at_most_one_notice:
  "length (displayed (notifier_run (Notifier m) evs)) \<le> 1
   \<and> (displayed (notifier_run (Notifier m) evs) \<noteq> [] \<longrightarrow>
        notifier_show message (notifier_run (Notifier m) evs)
          = (Some False, notifier_run (Notifier m) evs))
   \<and> (currentNotice n \<noteq> None \<longrightarrow> notifier_show message n = (Some False, n))"
proof -
  have i: "notifier_inv (notifier_run (Notifier m) evs)"
    by (rule notifier_inv_run[OF notifier_inv_init])
  then have "length (displayed (notifier_run (Notifier m) evs)) \<le> 1"
    by (auto simp: notifier_inv_def)
  moreover have "displayed (notifier_run (Notifier m) evs) \<noteq> [] \<longrightarrow>
        notifier_show message (notifier_run (Notifier m) evs)
          = (Some False, notifier_run (Notifier m) evs)"
    using i by (auto simp: notifier_inv_def intro: notifier_show_suppressed)
  ultimately show ?thesis
    by (simp add: notifier_show_suppressed)
qed

theorem notifier_at_most_one_notice_witness:
  "displayed (notifier_run (Notifier ''m'') [Show None, Show (Some ''again'')]) = [(0, ''m'')]
   \<and> notifier_show (Some ''third'') (notifier_run (Notifier ''m'') [Show None, Show (Some ''again'')])
       = (Some False, notifier_run (Notifier ''m'') [Show None, Show (Some ''again'')])"
proof -
  have d: "displayed (notifier_run (Notifier ''m'') [Show None, Show (Some ''again'')]) = [(0, ''m'')]"
    by (simp add: notifier_run_def notifier_show_def Notifier_def Let_def)
  then have "displayed (notifier_run (Notifier ''m'') [Show None, Show (Some ''again'')]) \<noteq> []"
    by simp
  with notifier_at_most_one_notice
         [of "''m''" "[Show None, Show (Some ''again'')]" "Some ''third''" "Notifier ''m''"] d
  show ?thesis by blast
qed

section \<open>Properties of resolveLibraryPath\<close>

lemma splitPath_nonempty: "splitPath p \<noteq> []"
  by (induction p) (auto split: list.splits)

lemma splitPath_separator: "splitPath (p @ CHR ''/'' # q) = splitPath p @ splitPath q"
proof (induction p)
  case Nil
  show ?case by simp
next
  case (Cons c p)
  obtain seg segs where "splitPath p = seg # segs"
    using splitPath_nonempty[of p] by (cases "splitPath p") auto
  with Cons show ?case by simp
qed

lemma splitPath_plain: "CHR ''/'' \<notin> set seg \<Longrightarrow> splitPath seg = [seg]"
  by (induction seg) auto

lemma splitPath_joinSegments:
  "segs \<noteq> [] \<Longrightarrow> \<forall>seg\<in>set segs. CHR ''/'' \<notin> set seg \<Longrightarrow> splitPath (joinSegments segs) = segs"
proof (induction segs rule: joinSegments.induct)
  case 1
  then show ?case by simp
next
  case (2 s)
  then show ?case by (simp add: splitPath_plain)
next
  case (3 s t ss)
  then show ?case by (simp add: splitPath_separator splitPath_plain)
qed

lemma normalizeSegments_append:
  "normalizeSegments a res (xs @ ys) = normalizeSegments a (normalizeSegments a res xs) ys"
  by (induction xs arbitrary: res) auto

lemma normalizeSegments_plain:
  "\<forall>seg\<in>set segs. plainSegment seg \<Longrightarrow> normalizeSegments a res segs = res @ segs"
  by (induction segs arbitrary: res) (auto simp: plainSegment_def)

lemma normalizeString_trailing: "normalizeString (p @ ''/'') a = normalizeString p a"
  by (simp add: normalizeString_def splitPath_separator normalizeSegments_append)

lemma resolved_absolute_input:
  assumes "rawPath \<noteq> []" and "hd rawPath = CHR ''/''"
  shows "resolveLibraryPath env rawPath = CHR ''/'' # normalizeString rawPath False"
  using assms normalizeString_trailing[of rawPath False]
  by (simp add: resolveLibraryPath_def path_resolve_def)

lemma resolved_relative_input:
  assumes "rawPath \<noteq> []" and "hd rawPath \<noteq> CHR ''/''"
    and "vaultRoot env \<noteq> []" and "hd (vaultRoot env) = CHR ''/''"
  shows "resolveLibraryPath env rawPath
           = CHR ''/'' # normalizeString (vaultRoot env @ CHR ''/'' # rawPath) False"
  using assms normalizeString_trailing[of "vaultRoot env @ CHR ''/'' # rawPath" False]
  by (simp add: resolveLibraryPath_def path_resolve_def)

lemma resolved_normal_form:
  assumes "\<forall>seg\<in>set segs. plainSegment seg"
  shows "resolveLibraryPath env (CHR ''/'' # joinSegments segs) = CHR ''/'' # joinSegments segs"
proof -
  have "normalizeString (CHR ''/'' # joinSegments segs) False = joinSegments segs"
  proof (cases "segs = []")
    case True
    then show ?thesis by (simp add: normalizeString_def)
  next
    case False
    have "\<forall>seg\<in>set segs. CHR ''/'' \<notin> set seg"
      using assms by (simp add: plainSegment_def)
    from splitPath_joinSegments[OF False this] normalizeSegments_plain[OF assms, of False "[]"]
    show ?thesis by (simp add: normalizeString_def)
  qed
  then show ?thesis
    by (simp add: resolved_absolute_input)
qed

lemma joinSegments_plain_relative:
  assumes "segs \<noteq> []" and "\<forall>seg\<in>set segs. plainSegment seg"
  shows "joinSegments segs \<noteq> [] \<and> hd (joinSegments segs) \<noteq> CHR ''/''"
proof (cases segs)
  case Nil
  with assms(1) show ?thesis by simp
next
  case (Cons seg rest)
  with assms(2) have "plainSegment seg" by simp
  then have ne: "seg \<noteq> []" and sep: "CHR ''/'' \<notin> set seg"
    unfolding plainSegment_def by blast+
  from ne sep have "hd seg \<noteq> CHR ''/''"
    by (cases seg) auto
  with ne have p: "seg \<noteq> []" "hd seg \<noteq> CHR ''/''"
    by simp_all
  show ?thesis
  proof (cases rest)
    case Nil
    with Cons p show ?thesis by simp
  next
    case (Cons t ts)
    with \<open>segs = seg # rest\<close> p show ?thesis by simp
  qed
qed

lemma normalize_plain_root:
  assumes "\<forall>seg\<in>set segs. plainSegment seg"
  shows "normalizeSegments a [] (splitPath (joinSegments segs)) = segs"
proof (cases "segs = []")
  case True
  then show ?thesis by simp
next
  case False
  have "\<forall>seg\<in>set segs. CHR ''/'' \<notin> set seg"
    using assms by (simp add: plainSegment_def)
  from splitPath_joinSegments[OF False this] normalizeSegments_plain[OF assms, of a "[]"]
  show ?thesis by simp
qed

lemma resolved_plain_relative:
  assumes v: "\<forall>seg\<in>set vsegs. plainSegment seg"
    and r: "\<forall>seg\<in>set rsegs. plainSegment seg"
    and ne: "rsegs \<noteq> []"
    and root: "vaultRoot env = CHR ''/'' # joinSegments vsegs"
  shows "resolveLibraryPath env (joinSegments rsegs) = CHR ''/'' # joinSegments (vsegs @ rsegs)"
proof -
  from joinSegments_plain_relative[OF ne r]
  have rel: "joinSegments rsegs \<noteq> []" "hd (joinSegments rsegs) \<noteq> CHR ''/''"
    by simp_all
  have "resolveLibraryPath env (joinSegments rsegs)
          = CHR ''/'' # normalizeString (vaultRoot env @ CHR ''/'' # joinSegments rsegs) False"
    by (rule resolved_relative_input[OF rel]) (simp_all add: root)
  moreover have "normalizeString (vaultRoot env @ CHR ''/'' # joinSegments rsegs) False
          = joinSegments (vsegs @ rsegs)"
  proof -
    have "\<forall>seg\<in>set rsegs. CHR ''/'' \<notin> set seg"
      using r by (simp add: plainSegment_def)
    from splitPath_joinSegments[OF ne this]
    have "splitPath (vaultRoot env @ CHR ''/'' # joinSegments rsegs)
            = ([] # splitPath (joinSegments vsegs)) @ rsegs"
      by (simp add: root splitPath_separator)
    then have "normalizeSegments False [] (splitPath (vaultRoot env @ CHR ''/'' # joinSegments rsegs))
            = normalizeSegments False (normalizeSegments False [] (splitPath (joinSegments vsegs))) rsegs"
      by (simp add: normalizeSegments_append)
    also have "\<dots> = vsegs @ rsegs"
      by (simp add: normalize_plain_root[OF v] normalizeSegments_plain[OF r])
    finally show ?thesis by (simp add: normalizeString_def)
  qed
  ultimately show ?thesis by simp
qed

lemma joinSegments_cons_char:
  "joinSegments ((c # seg) # segs) = c # joinSegments (seg # segs)"
  by (cases segs) simp_all

lemma joinSegments_splitPath: "joinSegments (splitPath p) = p"
proof (induction p)
  case Nil
  show ?case by simp
next
  case (Cons c p)
  obtain seg segs where sp: "splitPath p = seg # segs"
    using splitPath_nonempty[of p] by (cases "splitPath p") auto
  show ?case
  proof (cases "c = CHR ''/''")
    case True
    with Cons sp show ?thesis by simp
  next
    case False
    with Cons sp show ?thesis by (simp add: joinSegments_cons_char)
  qed
qed

lemma splitPath_separator_free: "\<forall>seg\<in>set (splitPath p). CHR ''/'' \<notin> set seg"
proof (induction p)
  case Nil
  show ?case by simp
next
  case (Cons c p)
  obtain seg segs where sp: "splitPath p = seg # segs"
    using splitPath_nonempty[of p] by (cases "splitPath p") auto
  with Cons show ?case by auto
qed

lemma normalize_split_join:
  assumes "\<forall>seg\<in>set segs. CHR ''/'' \<notin> set seg"
  shows "normalizeSegments a res (splitPath (joinSegments segs)) = normalizeSegments a res segs"
proof (cases "segs = []")
  case True
  then show ?thesis by simp
next
  case False
  from splitPath_joinSegments[OF False assms] show ?thesis by simp
qed

lemma resolved_segments:
  assumes "\<forall>seg\<in>set segs. CHR ''/'' \<notin> set seg"
  shows "resolveLibraryPath env (CHR ''/'' # joinSegments segs)
           = CHR ''/'' # joinSegments (normalizeSegments False [] segs)"
proof -
  have "resolveLibraryPath env (CHR ''/'' # joinSegments segs)
          = CHR ''/'' # normalizeString (CHR ''/'' # joinSegments segs) False"
    by (rule resolved_absolute_input) simp_all
  then show ?thesis
    by (simp add: normalizeString_def normalize_split_join[OF assms])
qed

lemma normalize_drop_empty:
  "normalizeSegments a res (xs @ [] # ys) = normalizeSegments a res (xs @ ys)"
  by (simp add: normalizeSegments_append)

lemma normalize_drop_dot:
  "normalizeSegments a res (xs @ ''.'' # ys) = normalizeSegments a res (xs @ ys)"
  by (simp add: normalizeSegments_append)

lemma normalize_cancel:
  assumes "plainSegment seg"
  shows "normalizeSegments a res (xs @ seg # ''..'' # ys) = normalizeSegments a res (xs @ ys)"
proof -
  from assms have p: "seg \<noteq> []" "seg \<noteq> ''.''" "seg \<noteq> ''..''"
    unfolding plainSegment_def by blast+
  have "normalizeSegments a r (seg # ''..'' # ys) = normalizeSegments a r ys" for r
    using p by simp
  then show ?thesis by (simp only: normalizeSegments_append)
qed

lemma normalize_root_parent:
  "normalizeSegments False [] (''..'' # ys) = normalizeSegments False [] ys"
  by simp

lemma normalize_separator:
  "normalizeSegments a res (splitPath (p @ CHR ''/'' # q))
     = normalizeSegments a (normalizeSegments a res (splitPath p)) (splitPath q)"
  by (simp add: splitPath_separator normalizeSegments_append)

lemma resolved_against_root:
  assumes "rawPath = [] \<or> hd rawPath \<noteq> CHR ''/''"
    and "vaultRoot env \<noteq> []" and "hd (vaultRoot env) = CHR ''/''"
  shows "resolveLibraryPath env rawPath
           = resolveLibraryPath env (vaultRoot env @ CHR ''/'' # rawPath)"
proof (cases "rawPath = []")
  case True
  with assms(2,3) show ?thesis
    by (simp add: resolveLibraryPath_def path_resolve_def normalizeString_def
        normalize_separator)
next
  case False
  with assms show ?thesis
    by (simp add: resolveLibraryPath_def path_resolve_def normalizeString_def
        normalize_separator)
qed

lemma resolved_against_working_directory:
  assumes "rawPath = [] \<or> hd rawPath \<noteq> CHR ''/''"
    and "vaultRoot env = [] \<or> hd (vaultRoot env) \<noteq> CHR ''/''"
    and "workingDirectory env \<noteq> []" and "hd (workingDirectory env) = CHR ''/''"
  shows "resolveLibraryPath env rawPath
           = resolveLibraryPath env
               (workingDirectory env @ CHR ''/'' # vaultRoot env @ CHR ''/'' # rawPath)"
proof (cases "rawPath = []")
  case True
  show ?thesis
  proof (cases "vaultRoot env = []")
    case True
    with \<open>rawPath = []\<close> assms(3,4) show ?thesis
      by (simp add: resolveLibraryPath_def path_resolve_def normalizeString_def
          normalize_separator)
  next
    case False
    with \<open>rawPath = []\<close> assms(2,3,4) show ?thesis
      by (simp add: resolveLibraryPath_def path_resolve_def normalizeString_def
          normalize_separator)
  qed
next
  case False
  show ?thesis
  proof (cases "vaultRoot env = []")
    case True
    with \<open>rawPath \<noteq> []\<close> assms(1,3,4) show ?thesis
      by (simp add: resolveLibraryPath_def path_resolve_def normalizeString_def
          normalize_separator)
  next
    case False
    with \<open>rawPath \<noteq> []\<close> assms show ?thesis
      by (simp add: resolveLibraryPath_def path_resolve_def normalizeString_def
          normalize_separator)
  qed
qed

text \<open>
  C6, as the claim states it, fails: an absolute input that is not in normal form is
  not returned verbatim. The two inputs are absolute; the first is the example of the
  documentation of \<open>path.resolve\<close>.
\<close>

theorem resolveLibraryPath_absolute_not_verbatim:
  "resolveLibraryPath (exampleEnv\<lparr>adapter := FileSystemAdapter ''/foo/bar''\<rparr>) ''/tmp/file/'' = ''/tmp/file''
   \<and> resolveLibraryPath (exampleEnv\<lparr>adapter := FileSystemAdapter ''/foo/bar''\<rparr>) ''/tmp/file/'' \<noteq> ''/tmp/file/''
   \<and> resolveLibraryPath exampleEnv ''/a/../b'' = ''/b''
   \<and> resolveLibraryPath exampleEnv ''/a/../b'' \<noteq> ''/a/../b''"
  by (simp add: resolveLibraryPath_def vaultRoot_def exampleEnv_def path_resolve_def
      normalizeString_def)

text \<open>
  C6, amended. Every absolute input is \<open>/\<close> followed by segments joined by \<open>/\<close>.
  An absolute input is returned in normal form, whatever the vault root is: verbatim
  when its segments are all plain; otherwise as the input without an empty segment or
  a \<open>.\<close> segment is, as the input without a plain segment and the \<open>..\<close> after it
  is, and as the input without a leading \<open>..\<close> is. A relative input, the empty one
  included, is returned as the absolute path made of the vault root, a separator and the
  input is, when the vault root is absolute; when it is not, the (absolute) working
  directory is put in front as well. So a relative input of plain segments under a vault
  root of plain segments gives the vault root with the segments of the input appended.
\<close>

theorem resolveLibraryPath_normalises:
  "(rawPath \<noteq> [] \<and> hd rawPath = CHR ''/'' \<longrightarrow>
      rawPath = CHR ''/'' # joinSegments (splitPath (tl rawPath))
      \<and> (\<forall>seg\<in>set (splitPath (tl rawPath)). CHR ''/'' \<notin> set seg))
   \<and> ((\<forall>seg\<in>set segs. plainSegment seg) \<longrightarrow>
        resolveLibraryPath env (CHR ''/'' # joinSegments segs) = CHR ''/'' # joinSegments segs)
   \<and> ((\<forall>seg\<in>set (xs @ ys). CHR ''/'' \<notin> set seg) \<longrightarrow>
        resolveLibraryPath env (CHR ''/'' # joinSegments (xs @ [] # ys))
          = resolveLibraryPath env (CHR ''/'' # joinSegments (xs @ ys))
        \<and> resolveLibraryPath env (CHR ''/'' # joinSegments (xs @ ''.'' # ys))
          = resolveLibraryPath env (CHR ''/'' # joinSegments (xs @ ys))
        \<and> (plainSegment s \<longrightarrow>
             resolveLibraryPath env (CHR ''/'' # joinSegments (xs @ s # ''..'' # ys))
               = resolveLibraryPath env (CHR ''/'' # joinSegments (xs @ ys)))
        \<and> resolveLibraryPath env (CHR ''/'' # joinSegments (''..'' # ys))
          = resolveLibraryPath env (CHR ''/'' # joinSegments ys))
   \<and> ((rawPath = [] \<or> hd rawPath \<noteq> CHR ''/'')
        \<and> vaultRoot env \<noteq> [] \<and> hd (vaultRoot env) = CHR ''/'' \<longrightarrow>
        resolveLibraryPath env rawPath
          = resolveLibraryPath env (vaultRoot env @ CHR ''/'' # rawPath))
   \<and> ((rawPath = [] \<or> hd rawPath \<noteq> CHR ''/'')
        \<and> (vaultRoot env = [] \<or> hd (vaultRoot env) \<noteq> CHR ''/'')
        \<and> workingDirectory env \<noteq> [] \<and> hd (workingDirectory env) = CHR ''/'' \<longrightarrow>
        resolveLibraryPath env rawPath
          = resolveLibraryPath env
              (workingDirectory env @ CHR ''/'' # vaultRoot env @ CHR ''/'' # rawPath))
   \<and> ((\<forall>seg\<in>set vsegs. plainSegment seg) \<and> (\<forall>seg\<in>set rsegs. plainSegment seg) \<and> rsegs \<noteq> []
        \<and> vaultRoot env = CHR ''/'' # joinSegments vsegs \<longrightarrow>
        resolveLibraryPath env (joinSegments rsegs) = CHR ''/'' # joinSegments (vsegs @ rsegs))"
proof (intro conjI impI)
  assume a: "rawPath \<noteq> [] \<and> hd rawPath = CHR ''/''"
  then have "rawPath = CHR ''/'' # tl rawPath" by (cases rawPath) simp_all
  then show "rawPath = CHR ''/'' # joinSegments (splitPath (tl rawPath))"
    by (simp add: joinSegments_splitPath)
  show "\<forall>seg\<in>set (splitPath (tl rawPath)). CHR ''/'' \<notin> set seg"
    by (rule splitPath_separator_free)
next
  assume "\<forall>seg\<in>set segs. plainSegment seg"
  then show "resolveLibraryPath env (CHR ''/'' # joinSegments segs) = CHR ''/'' # joinSegments segs"
    by (rule resolved_normal_form)
next
  assume h: "\<forall>seg\<in>set (xs @ ys). CHR ''/'' \<notin> set seg"
  then have f: "\<forall>seg\<in>set (xs @ [] # ys). CHR ''/'' \<notin> set seg"
    "\<forall>seg\<in>set (xs @ ''.'' # ys). CHR ''/'' \<notin> set seg"
    "\<forall>seg\<in>set (''..'' # ys). CHR ''/'' \<notin> set seg"
    "\<forall>seg\<in>set ys. CHR ''/'' \<notin> set seg"
    by auto
  show "resolveLibraryPath env (CHR ''/'' # joinSegments (xs @ [] # ys))
          = resolveLibraryPath env (CHR ''/'' # joinSegments (xs @ ys))"
    by (simp only: resolved_segments[OF h] resolved_segments[OF f(1)] normalize_drop_empty)
  show "resolveLibraryPath env (CHR ''/'' # joinSegments (xs @ ''.'' # ys))
          = resolveLibraryPath env (CHR ''/'' # joinSegments (xs @ ys))"
    by (simp only: resolved_segments[OF h] resolved_segments[OF f(2)] normalize_drop_dot)
  show "resolveLibraryPath env (CHR ''/'' # joinSegments (''..'' # ys))
          = resolveLibraryPath env (CHR ''/'' # joinSegments ys)"
    by (simp only: resolved_segments[OF f(3)] resolved_segments[OF f(4)] normalize_root_parent)
  assume p: "plainSegment s"
  then have "CHR ''/'' \<notin> set s" unfolding plainSegment_def by blast
  with h have g: "\<forall>seg\<in>set (xs @ s # ''..'' # ys). CHR ''/'' \<notin> set seg"
    by auto
  show "resolveLibraryPath env (CHR ''/'' # joinSegments (xs @ s # ''..'' # ys))
          = resolveLibraryPath env (CHR ''/'' # joinSegments (xs @ ys))"
    by (simp only: resolved_segments[OF h] resolved_segments[OF g] normalize_cancel[OF p])
next
  assume "(rawPath = [] \<or> hd rawPath \<noteq> CHR ''/'')
        \<and> vaultRoot env \<noteq> [] \<and> hd (vaultRoot env) = CHR ''/''"
  then show "resolveLibraryPath env rawPath
          = resolveLibraryPath env (vaultRoot env @ CHR ''/'' # rawPath)"
    by (simp add: resolved_against_root)
next
  assume "(rawPath = [] \<or> hd rawPath \<noteq> CHR ''/'')
        \<and> (vaultRoot env = [] \<or> hd (vaultRoot env) \<noteq> CHR ''/'')
        \<and> workingDirectory env \<noteq> [] \<and> hd (workingDirectory env) = CHR ''/''"
  then show "resolveLibraryPath env rawPath
          = resolveLibraryPath env
              (workingDirectory env @ CHR ''/'' # vaultRoot env @ CHR ''/'' # rawPath)"
    by (simp add: resolved_against_working_directory)
next
  assume "(\<forall>seg\<in>set vsegs. plainSegment seg) \<and> (\<forall>seg\<in>set rsegs. plainSegment seg) \<and> rsegs \<noteq> []
        \<and> vaultRoot env = CHR ''/'' # joinSegments vsegs"
  then show "resolveLibraryPath env (joinSegments rsegs) = CHR ''/'' # joinSegments (vsegs @ rsegs)"
    by (simp add: resolved_plain_relative)
qed

theorem resolveLibraryPath_normalises_witness:
  "''/tmp/file/'' = CHR ''/'' # joinSegments [''tmp'', ''file'', []]
   \<and> plainSegment ''tmp'' \<and> plainSegment ''file'' \<and> plainSegment ''a'' \<and> plainSegment ''b''
   \<and> resolveLibraryPath exampleEnv ''/tmp/file'' = ''/tmp/file''
   \<and> resolveLibraryPath exampleEnv ''/tmp/file/'' = ''/tmp/file''
   \<and> resolveLibraryPath exampleEnv ''/tmp/./file'' = ''/tmp/file''
   \<and> resolveLibraryPath exampleEnv ''/a/../b'' = ''/b''
   \<and> resolveLibraryPath exampleEnv ''/../b'' = ''/b''
   \<and> vaultRoot exampleEnv = ''/vault''
   \<and> resolveLibraryPath exampleEnv ''refs.json'' = resolveLibraryPath exampleEnv ''/vault/refs.json''
   \<and> resolveLibraryPath exampleEnv [] = resolveLibraryPath exampleEnv ''/vault/''
   \<and> resolveLibraryPath exampleEnv ''tmp/file'' = ''/vault/tmp/file''
   \<and> vaultRoot (exampleEnv\<lparr>adapter := FileSystemAdapter ''vault''\<rparr>) = ''vault''
   \<and> workingDirectory (exampleEnv\<lparr>adapter := FileSystemAdapter ''vault''\<rparr>) = ''/home''
   \<and> resolveLibraryPath (exampleEnv\<lparr>adapter := FileSystemAdapter ''vault''\<rparr>) ''refs.json''
       = resolveLibraryPath (exampleEnv\<lparr>adapter := FileSystemAdapter ''vault''\<rparr>) ''/home/vault/refs.json''
   \<and> resolveLibraryPath exampleEnv ''refs.json'' = ''/vault/refs.json''
   \<and> resolveLibraryPath exampleEnv [] = ''/vault''
   \<and> resolveLibraryPath (exampleEnv\<lparr>adapter := FileSystemAdapter ''vault''\<rparr>) ''refs.json''
       = ''/home/vault/refs.json''"
proof -
  have plain: "plainSegment ''tmp''" "plainSegment ''file''" "plainSegment ''a''" "plainSegment ''b''"
    by (simp_all add: plainSegment_def)
  have v: "vaultRoot exampleEnv = ''/vault''"
    by (simp add: vaultRoot_def exampleEnv_def)
  let ?rel = "exampleEnv\<lparr>adapter := FileSystemAdapter ''vault''\<rparr>"
  have w: "vaultRoot ?rel = ''vault''" "workingDirectory ?rel = ''/home''"
    by (simp_all add: vaultRoot_def exampleEnv_def)
  from resolveLibraryPath_normalises
         [of "''/tmp/file/''" "[''tmp'', ''file'']" exampleEnv "[''tmp'', ''file'']" "[]" "''a''"
             "[''vault'']" "[''tmp'', ''file'']"]
  have split: "''/tmp/file/'' = CHR ''/'' # joinSegments [''tmp'', ''file'', []]"
    and verbatim: "resolveLibraryPath exampleEnv ''/tmp/file'' = ''/tmp/file''"
    and trailing: "resolveLibraryPath exampleEnv ''/tmp/file/'' = resolveLibraryPath exampleEnv ''/tmp/file''"
    and under: "resolveLibraryPath exampleEnv ''tmp/file'' = ''/vault/tmp/file''"
    using plain v by (simp_all add: plainSegment_def)
  from resolveLibraryPath_normalises
         [of "''/tmp/./file''" "[''b'']" exampleEnv "[''tmp'']" "[''file'']" "''a''" "[]" "[]"]
  have dot: "resolveLibraryPath exampleEnv ''/tmp/./file'' = resolveLibraryPath exampleEnv ''/tmp/file''"
    and b: "resolveLibraryPath exampleEnv ''/b'' = ''/b''"
    using plain by simp_all
  from resolveLibraryPath_normalises
         [of "''/a/../b''" "[''b'']" exampleEnv "[]" "[''b'']" "''a''" "[]" "[]"]
  have cancel: "resolveLibraryPath exampleEnv ''/a/../b'' = resolveLibraryPath exampleEnv ''/b''"
    and root: "resolveLibraryPath exampleEnv ''/../b'' = resolveLibraryPath exampleEnv ''/b''"
    using plain by simp_all
  from resolveLibraryPath_normalises[of "''refs.json''" "[]" exampleEnv "[]" "[]" "''a''" "[]" "[]"]
  have rel: "resolveLibraryPath exampleEnv ''refs.json'' = resolveLibraryPath exampleEnv ''/vault/refs.json''"
    by (simp add: v)
  from resolveLibraryPath_normalises[of "[]" "[]" exampleEnv "[]" "[]" "''a''" "[]" "[]"]
  have empty: "resolveLibraryPath exampleEnv [] = resolveLibraryPath exampleEnv ''/vault/''"
    by (simp add: v)
  from resolveLibraryPath_normalises[of "''refs.json''" "[]" ?rel "[]" "[]" "''a''" "[]" "[]"]
  have cwd: "resolveLibraryPath ?rel ''refs.json'' = resolveLibraryPath ?rel ''/home/vault/refs.json''"
    by (simp add: w)
  have plain2: "plainSegment ''vault''" "plainSegment ''refs.json''" "plainSegment ''home''"
    by (simp_all add: plainSegment_def)
  from resolveLibraryPath_normalises
         [of "''/vault/''" "[''vault'', ''refs.json'']" exampleEnv "[''vault'']" "[]" "''a''" "[]" "[]"]
  have relv: "resolveLibraryPath exampleEnv ''/vault/refs.json'' = ''/vault/refs.json''"
    and slash: "resolveLibraryPath exampleEnv ''/vault/'' = resolveLibraryPath exampleEnv ''/vault''"
    using plain2 by simp_all
  from resolveLibraryPath_normalises
         [of "''/vault''" "[''vault'']" exampleEnv "[]" "[]" "''a''" "[]" "[]"]
  have vv: "resolveLibraryPath exampleEnv ''/vault'' = ''/vault''"
    using plain2 by simp
  from resolveLibraryPath_normalises
         [of "''/vault''" "[''home'', ''vault'', ''refs.json'']" ?rel "[]" "[]" "''a''" "[]" "[]"]
  have cwdv: "resolveLibraryPath ?rel ''/home/vault/refs.json'' = ''/home/vault/refs.json''"
    using plain2 by simp
  have vals: "resolveLibraryPath exampleEnv ''refs.json'' = ''/vault/refs.json''"
    "resolveLibraryPath exampleEnv [] = ''/vault''"
    "resolveLibraryPath ?rel ''refs.json'' = ''/home/vault/refs.json''"
    by (simp_all only: rel relv empty slash vv cwd cwdv)
  from split plain verbatim trailing dot b cancel root v rel empty under w cwd vals show ?thesis
    by simp
qed

section \<open>Properties of loads in flight\<close>

lemma run_append:
  "run env sys (xs @ ys) = (case run env sys xs of None \<Rightarrow> None | Some m \<Rightarrow> run env m ys)"
  by (induction xs arbitrary: sys) (auto split: option.splits)

lemma run_snoc:
  "run env sys (evs @ [ev]) = Some m \<Longrightarrow> \<exists>m1. run env sys evs = Some m1 \<and> step env m1 ev = Some m"
  by (auto simp: run_append split: option.splits)

lemma loadLibrary_start_library:
  "loadLibrary_start env s = (p, s1) \<Longrightarrow> library s1 = library s"
  by (auto simp: loadLibrary_start_def Let_def split: if_splits)

lemma loadLibrary_resume_library:
  "loadLibrary_resume env s r = (x, s1) \<Longrightarrow> library s1 = library s"
  by (auto simp: loadLibrary_resume_def split: sum.splits)

lemma step_keeps_library:
  "step env sys ev = Some sys' \<Longrightarrow> \<not> isAssign ev \<Longrightarrow> library (plugin sys') = library (plugin sys)"
proof (cases ev)
  case (Trigger i src)
  assume "step env sys ev = Some sys'"
  then show ?thesis
    using Trigger
    by (auto split: option.splits prod.splits pending.splits dest: loadLibrary_start_library)
next
  case (ReadSettled i r)
  assume "step env sys ev = Some sys'"
  then show ?thesis
    using ReadSettled
    by (auto split: option.splits prod.splits load.splits dest: loadLibrary_resume_library)
next
  case (Assign i)
  assume "\<not> isAssign ev"
  with Assign show ?thesis by simp
qed

lemma run_keeps_library:
  "run env sys evs = Some sys' \<Longrightarrow> \<forall>ev\<in>set evs. \<not> isAssign ev \<Longrightarrow>
   library (plugin sys') = library (plugin sys)"
proof (induction evs arbitrary: sys)
  case Nil
  then show ?case by simp
next
  case (Cons ev evs)
  from Cons.prems(1) obtain m where m: "step env sys ev = Some m" and r: "run env m evs = Some sys'"
    by (auto split: option.splits)
  from Cons.IH[OF r] Cons.prems(2) have "library (plugin sys') = library (plugin m)" by simp
  with step_keeps_library[OF m] Cons.prems(2) show ?case by simp
qed

lemma step_other_load:
  "step env sys ev = Some sys' \<Longrightarrow> loadOf ev \<noteq> i \<Longrightarrow> inflight sys' i = inflight sys i"
  by (cases ev) (auto split: option.splits prod.splits pending.splits load.splits)

lemma returnedBy_later:
  assumes "returnedBy env sys i evs r" and "loadOf ev \<noteq> i"
  shows "returnedBy env sys i (evs @ [ev]) r"
  using assms(1) unfolding returnedBy_def
proof (elim disjE exE conjE)
  fix p1 p2 m0 readResult
  assume "evs = p1 @ ReadSettled i readResult # p2" "run env sys p1 = Some m0"
    "\<forall>ev\<in>set p2. loadOf ev \<noteq> i" "r = fst (loadLibrary_resume env (plugin m0) readResult)"
  with assms(2) have "evs @ [ev] = p1 @ ReadSettled i readResult # (p2 @ [ev])
      \<and> run env sys p1 = Some m0 \<and> (\<forall>e\<in>set (p2 @ [ev]). loadOf e \<noteq> i)
      \<and> r = fst (loadLibrary_resume env (plugin m0) readResult)"
    by simp
  then show "(\<exists>p1 p2 m0 readResult.
         evs @ [ev] = p1 @ ReadSettled i readResult # p2 \<and> run env sys p1 = Some m0
         \<and> (\<forall>ev\<in>set p2. loadOf ev \<noteq> i)
         \<and> r = fst (loadLibrary_resume env (plugin m0) readResult))
     \<or> (\<exists>p1 p2 m0 src.
         evs @ [ev] = p1 @ Trigger i src # p2 \<and> run env sys p1 = Some m0
         \<and> (\<forall>ev\<in>set p2. loadOf ev \<noteq> i)
         \<and> citationExportPath (settings (plugin m0)) = []
         \<and> r = fst (loadLibrary env (plugin m0)))"
    by blast
next
  fix p1 p2 m0 src
  assume "evs = p1 @ Trigger i src # p2" "run env sys p1 = Some m0"
    "\<forall>ev\<in>set p2. loadOf ev \<noteq> i" "citationExportPath (settings (plugin m0)) = []"
    "r = fst (loadLibrary env (plugin m0))"
  with assms(2) have "evs @ [ev] = p1 @ Trigger i src # (p2 @ [ev])
      \<and> run env sys p1 = Some m0 \<and> (\<forall>e\<in>set (p2 @ [ev]). loadOf e \<noteq> i)
      \<and> citationExportPath (settings (plugin m0)) = []
      \<and> r = fst (loadLibrary env (plugin m0))"
    by simp
  then show "(\<exists>p1 p2 m0 readResult.
         evs @ [ev] = p1 @ ReadSettled i readResult # p2 \<and> run env sys p1 = Some m0
         \<and> (\<forall>ev\<in>set p2. loadOf ev \<noteq> i)
         \<and> r = fst (loadLibrary_resume env (plugin m0) readResult))
     \<or> (\<exists>p1 p2 m0 src.
         evs @ [ev] = p1 @ Trigger i src # p2 \<and> run env sys p1 = Some m0
         \<and> (\<forall>ev\<in>set p2. loadOf ev \<noteq> i)
         \<and> citationExportPath (settings (plugin m0)) = []
         \<and> r = fst (loadLibrary env (plugin m0)))"
    by blast
qed

lemma loadLibrary_unset_fst:
  "citationExportPath (settings s) = [] \<Longrightarrow> fst (loadLibrary env s) = None"
  by (simp add: loadLibrary_def loadLibrary_start_def)

lemma completed_returnedBy:
  "run env sys evs = Some m \<Longrightarrow> inflight sys i = None \<Longrightarrow> inflight m i = Some (Completed r) \<Longrightarrow>
   returnedBy env sys i evs r"
proof (induction evs arbitrary: m r rule: rev_induct)
  case Nil
  then show ?case by simp
next
  case (snoc ev evs)
  from run_snoc[OF snoc.prems(1)] obtain m1 where
    m1: "run env sys evs = Some m1" and st: "step env m1 ev = Some m" by blast
  show ?case
  proof (cases "loadOf ev = i")
    case False
    from step_other_load[OF st False] snoc.prems(3) have "inflight m1 i = Some (Completed r)"
      by simp
    from snoc.IH[OF m1 snoc.prems(2) this] show ?thesis
      by (rule returnedBy_later) (rule False)
  next
    case True
    show ?thesis
    proof (cases ev)
      case (Trigger j src)
      with True have ev: "ev = Trigger i src" by simp
      from st snoc.prems(3) have "citationExportPath (settings (plugin m1)) = [] \<and> r = None"
        unfolding ev
        by (auto simp: loadLibrary_start_def Let_def split: option.splits if_splits)
      then have "evs @ [ev] = evs @ Trigger i src # [] \<and> run env sys evs = Some m1
          \<and> (\<forall>e\<in>set []. loadOf e \<noteq> i)
          \<and> citationExportPath (settings (plugin m1)) = []
          \<and> r = fst (loadLibrary env (plugin m1))"
        using m1 ev by (simp add: loadLibrary_unset_fst)
      then show ?thesis unfolding returnedBy_def by blast
    next
      case (ReadSettled j rr)
      with True have ev: "ev = ReadSettled i rr" by simp
      from st snoc.prems(3) have "r = fst (loadLibrary_resume env (plugin m1) rr)"
        unfolding ev
        by (auto split: option.splits load.splits prod.splits)
      then have "evs @ [ev] = evs @ ReadSettled i rr # [] \<and> run env sys evs = Some m1
          \<and> (\<forall>e\<in>set []. loadOf e \<noteq> i)
          \<and> r = fst (loadLibrary_resume env (plugin m1) rr)"
        using m1 ev by simp
      then show ?thesis unfolding returnedBy_def by blast
    next
      case (Assign j)
      with True have ev: "ev = Assign i" by simp
      from st have "inflight m i = None"
        unfolding ev by (auto split: option.splits load.splits)
      with snoc.prems(3) show ?thesis by simp
    qed
  qed
qed

subsection \<open>What the debug line does to every load\<close>

text \<open>
  The debug line of the success path reads \<open>this.library.size\<close>, not the size of the
  library just built. While the library of the plugin is \<open>undefined\<close> or \<open>null\<close>
  the line throws inside the \<open>try\<close>, so the load returns \<open>null\<close>; and since the
  field is assigned nothing but results of \<open>loadLibrary\<close>, it stays so through every
  run that starts with it \<open>undefined\<close> or \<open>null\<close> and no result pending.
\<close>

lemma loadLibrary_resume_without_library:
  assumes "library s = LUndefined \<or> library s = LNull"
  shows "fst (loadLibrary_resume env s r) = None"
proof -
  have "\<exists>x. loadLibrary_try env s r = Inl x"
    using assms by (auto simp: loadLibrary_try_def split: sum.splits)
  then show ?thesis by (auto simp: loadLibrary_resume_def)
qed

lemma loadLibrary_without_library:
  assumes "library s = LUndefined \<or> library s = LNull"
  shows "fst (loadLibrary env s) = None"
proof (cases "citationExportPath (settings s) = []")
  case True
  then show ?thesis by (simp add: loadLibrary_unset)
next
  case False
  have "library (s\<lparr>trace := trace s @ [ConsoleDebugReloading]\<rparr>) = LUndefined
        \<or> library (s\<lparr>trace := trace s @ [ConsoleDebugReloading]\<rparr>) = LNull"
    using assms by simp
  from loadLibrary_resume_without_library[OF this] False show ?thesis
    by (simp add: loadLibrary_def loadLibrary_start_def)
qed

lemma step_neverLoaded:
  assumes "step env sys ev = Some sys'" and "neverLoaded sys"
  shows "neverLoaded sys'"
proof (cases ev)
  case (Trigger i src)
  with assms show ?thesis
    by (auto simp: neverLoaded_def split: option.splits prod.splits pending.splits if_splits
        dest: loadLibrary_start_library)
next
  case (ReadSettled i r)
  from assms(2) have l: "library (plugin sys) = LUndefined \<or> library (plugin sys) = LNull"
    by (simp add: neverLoaded_def)
  from loadLibrary_resume_without_library[OF l, of env r]
  have "\<And>x s1. loadLibrary_resume env (plugin sys) r = (x, s1) \<Longrightarrow> x = None"
    by simp
  with assms ReadSettled show ?thesis
    by (auto simp: neverLoaded_def split: option.splits prod.splits load.splits if_splits
        dest: loadLibrary_resume_library)
next
  case (Assign i)
  with assms show ?thesis
    by (auto simp: neverLoaded_def toLibref_def split: option.splits load.splits if_splits)
qed

lemma run_neverLoaded:
  "run env sys evs = Some sys' \<Longrightarrow> neverLoaded sys \<Longrightarrow> neverLoaded sys'"
proof (induction evs arbitrary: sys)
  case Nil
  then show ?case by simp
next
  case (Cons ev evs)
  from Cons.prems(1) obtain m where m: "step env sys ev = Some m" and r: "run env m evs = Some sys'"
    by (auto split: option.splits)
  from Cons.IH[OF r step_neverLoaded[OF m Cons.prems(2)]] show ?case .
qed

subsection \<open>The load that completes last\<close>

text \<open>
  C8. A load completes with its assignment to \<open>this.library\<close>. Take any run of
  loads, in whatever order their pieces come, and in it the load \<open>i\<close> that completes
  last (triggered within the run). Then the library of the plugin at the end is the
  value that the call of \<open>loadLibrary\<close> of that load returned, \<open>null\<close> or the
  Library: the value that the rest of \<open>loadLibrary\<close> returned when its read settled
  or, for a load triggered with no path set, the value that \<open>loadLibrary\<close> returned at
  once. When the other loads were triggered or completed plays no part.
\<close>

theorem last_completion_wins:
  assumes "run env sys (pre @ Assign i # post) = Some sys'"
    and "\<forall>ev\<in>set post. \<not> isAssign ev"
    and "inflight sys i = None"
  shows "(\<exists>p1 p2 m0 readResult.
            pre = p1 @ ReadSettled i readResult # p2 \<and> run env sys p1 = Some m0
            \<and> (\<forall>ev\<in>set p2. loadOf ev \<noteq> i)
            \<and> library (plugin sys')
                 = (case fst (loadLibrary_resume env (plugin m0) readResult) of
                      None \<Rightarrow> LNull
                    | Some l \<Rightarrow> Lib l))
         \<or> (\<exists>p1 p2 m0 src.
            pre = p1 @ Trigger i src # p2 \<and> run env sys p1 = Some m0
            \<and> (\<forall>ev\<in>set p2. loadOf ev \<noteq> i)
            \<and> citationExportPath (settings (plugin m0)) = []
            \<and> library (plugin sys')
                 = (case fst (loadLibrary env (plugin m0)) of
                      None \<Rightarrow> LNull
                    | Some l \<Rightarrow> Lib l))"
proof -
  from assms(1) obtain m where m: "run env sys pre = Some m"
    and rest: "run env m (Assign i # post) = Some sys'"
    by (auto simp: run_append split: option.splits)
  from rest obtain m' where a: "step env m (Assign i) = Some m'" and p: "run env m' post = Some sys'"
    by (auto split: option.splits)
  from a obtain r where r: "inflight m i = Some (Completed r)"
    and l: "library (plugin m') = (case r of None \<Rightarrow> LNull | Some l \<Rightarrow> Lib l)"
    by (auto simp: toLibref_def split: option.splits load.splits)
  from run_keeps_library[OF p assms(2)] l
  have final: "library (plugin sys') = (case r of None \<Rightarrow> LNull | Some l \<Rightarrow> Lib l)"
    by simp
  from completed_returnedBy[OF m assms(3) r] final show ?thesis
    unfolding returnedBy_def by blast
qed

lemma staleSchedule_split:
  assumes "staleSchedule = p1 @ ev # p2" and "loadOf ev = 1" and "\<forall>e\<in>set p2. loadOf e \<noteq> 1"
  shows "p1 = [Trigger 1 RefreshCommand, Trigger 2 WatcherChange, ReadSettled 2 (Inr newExport), Assign 2]
         \<and> ev = ReadSettled 1 (Inr oldExport) \<and> p2 = []"
  using assms
  by (auto simp: staleSchedule_def append_eq_Cons_conv Cons_eq_append_conv)

lemma stale_prefix:
  "\<exists>m. run bibEnv \<lparr>plugin = bibPlugin, inflight = (\<lambda>_. None)\<rparr>
          [Trigger 1 RefreshCommand, Trigger 2 WatcherChange, ReadSettled 2 (Inr newExport), Assign 2]
        = Some m
      \<and> library (plugin m) = Lib newLibrary
      \<and> citationExportFormat (settings (plugin m)) = Biblatex
      \<and> inflight m 1 = Some (AwaitingRead ''/vault/refs.bib'')"
  by (simp add: loadLibrary_start_def bibPlugin_def initialPlugin_def bibEnv_paths bib_resume
      toLibref_def)

theorem last_completion_wins_witness:
  "(\<exists>sys'. run bibEnv \<lparr>plugin = bibPlugin, inflight = (\<lambda>_. None)\<rparr> (staleSchedule @ Assign 1 # [])
              = Some sys'
            \<and> library (plugin sys') = Lib oldLibrary)
   \<and> fst (loadLibrary_resume bibEnv bibPlugin (Inr newExport)) = Some newLibrary
   \<and> (\<exists>sys'. run bibEnv \<lparr>plugin = initialPlugin, inflight = (\<lambda>_. None)\<rparr> (staleSchedule @ Assign 1 # [])
              = Some sys'
            \<and> library (plugin sys') = LNull)"
proof -
  let ?sys = "\<lparr>plugin = bibPlugin, inflight = (\<lambda>_. None)\<rparr> :: string system"
  from stale_prefix obtain m where
    m: "run bibEnv ?sys [Trigger 1 RefreshCommand, Trigger 2 WatcherChange,
                          ReadSettled 2 (Inr newExport), Assign 2] = Some m"
    and ml: "library (plugin m) = Lib newLibrary"
    and mf: "citationExportFormat (settings (plugin m)) = Biblatex"
    and mi: "inflight m 1 = Some (AwaitingRead ''/vault/refs.bib'')"
    by blast
  have res: "fst (loadLibrary_resume bibEnv (plugin m) (Inr oldExport)) = Some oldLibrary"
    by (simp add: bib_resume(2)[OF mf ml])
  have "\<exists>sys'. run bibEnv m [ReadSettled 1 (Inr oldExport), Assign 1] = Some sys'"
    using mi by (simp add: bib_resume(2)[OF mf ml])
  then obtain sys' where tail: "run bibEnv m [ReadSettled 1 (Inr oldExport), Assign 1] = Some sys'" ..
  have sched: "staleSchedule @ Assign 1 # []
        = [Trigger 1 RefreshCommand, Trigger 2 WatcherChange, ReadSettled 2 (Inr newExport), Assign 2]
          @ [ReadSettled 1 (Inr oldExport), Assign 1]"
    by (simp add: staleSchedule_def)
  have all: "run bibEnv ?sys (staleSchedule @ Assign 1 # []) = Some sys'"
    by (simp only: sched run_append m option.case tail)
  have none: "\<forall>ev\<in>set []. \<not> isAssign ev" by simp
  have fresh: "inflight ?sys 1 = None" by simp
  from last_completion_wins[OF all none fresh]
  have "library (plugin sys') = Lib oldLibrary"
  proof (elim disjE exE conjE)
    fix p1 p2 m0 readResult
    assume s: "staleSchedule = p1 @ ReadSettled 1 readResult # p2"
      and r: "run bibEnv ?sys p1 = Some m0"
      and o: "\<forall>ev\<in>set p2. loadOf ev \<noteq> 1"
      and l: "library (plugin sys')
                 = (case fst (loadLibrary_resume bibEnv (plugin m0) readResult) of
                      None \<Rightarrow> LNull
                    | Some l \<Rightarrow> Lib l)"
    from staleSchedule_split[OF s _ o]
    have p1: "p1 = [Trigger 1 RefreshCommand, Trigger 2 WatcherChange, ReadSettled 2 (Inr newExport), Assign 2]"
      and rr: "readResult = Inr oldExport"
      by simp_all
    from r m have "m0 = m" by (simp add: p1)
    with l rr res show ?thesis by simp
  next
    fix p1 p2 m0 src
    assume s: "staleSchedule = p1 @ Trigger 1 src # p2" and o: "\<forall>ev\<in>set p2. loadOf ev \<noteq> 1"
    from staleSchedule_split[OF s _ o] show ?thesis by simp
  qed
  with all have a: "\<exists>sys'. run bibEnv ?sys (staleSchedule @ Assign 1 # []) = Some sys'
            \<and> library (plugin sys') = Lib oldLibrary"
    by blast
  have bf: "citationExportFormat (settings bibPlugin) = Biblatex"
    and bl: "library bibPlugin = Lib (Library [])"
    by (simp_all add: bibPlugin_def initialPlugin_def)
  have b: "fst (loadLibrary_resume bibEnv bibPlugin (Inr newExport)) = Some newLibrary"
    by (simp add: bib_resume(1)[OF bf bl])
  let ?init = "\<lparr>plugin = initialPlugin, inflight = (\<lambda>_. None)\<rparr> :: string system"
  have "\<exists>sys'. run bibEnv ?init (staleSchedule @ Assign 1 # []) = Some sys'"
    by (simp add: staleSchedule_def loadLibrary_start_def loadLibrary_resume_def
        loadLibrary_try_def initialPlugin_def bibEnv_paths bibEnv_fields decoded_newExport
        decoded_oldExport bib_parsed bib_built toLibref_def)
  then obtain sysI where runI: "run bibEnv ?init (staleSchedule @ Assign 1 # []) = Some sysI" ..
  have never: "neverLoaded ?init"
    by (simp add: neverLoaded_def initialPlugin_def)
  have freshI: "inflight ?init 1 = None" by simp
  from last_completion_wins[OF runI none freshI]
  have "library (plugin sysI) = LNull"
  proof (elim disjE exE conjE)
    fix p1 p2 m0 readResult
    assume r: "run bibEnv ?init p1 = Some m0"
      and l: "library (plugin sysI)
                 = (case fst (loadLibrary_resume bibEnv (plugin m0) readResult) of
                      None \<Rightarrow> LNull
                    | Some l \<Rightarrow> Lib l)"
    from run_neverLoaded[OF r never]
    have "library (plugin m0) = LUndefined \<or> library (plugin m0) = LNull"
      by (simp add: neverLoaded_def)
    from loadLibrary_resume_without_library[OF this, of bibEnv readResult] l show ?thesis by simp
  next
    fix p1 p2 m0 src
    assume r: "run bibEnv ?init p1 = Some m0"
      and l: "library (plugin sysI)
                 = (case fst (loadLibrary bibEnv (plugin m0)) of
                      None \<Rightarrow> LNull
                    | Some l \<Rightarrow> Lib l)"
    from run_neverLoaded[OF r never]
    have "library (plugin m0) = LUndefined \<or> library (plugin m0) = LNull"
      by (simp add: neverLoaded_def)
    from loadLibrary_without_library[OF this, of bibEnv] l show ?thesis by simp
  qed
  with runI have c: "\<exists>sys'. run bibEnv ?init (staleSchedule @ Assign 1 # []) = Some sys'
            \<and> library (plugin sys') = LNull"
    by blast
  from a b c show ?thesis by blast
qed

end
